theory Spec2Isabelle
  imports Main "HOL-Library.Word"
begin

unbundle bit_operations_syntax

section \<open>Go library functions used by the debugger proxy\<close>

text \<open>
  The proxy of \<^verbatim>\<open>src/proxies/debugger/proxy.go\<close> calls a handful of functions of the Go
  standard library: \<^verbatim>\<open>fmt.Sprintf\<close> with the verbs \<^verbatim>\<open>%d\<close>, \<^verbatim>\<open>%s\<close> and \<^verbatim>\<open>%x\<close>,
  \<^verbatim>\<open>strings.Split\<close>, \<^verbatim>\<open>strconv.Atoi\<close> and \<^verbatim>\<open>crypto/sha1.Sum\<close>. They are modelled here
  as what they compute. A Go \<^verbatim>\<open>string\<close> is a sequence of bytes, as a HOL \<^typ>\<open>string\<close> is.
  Go's \<^verbatim>\<open>int\<close> is taken to be 64 bits wide (the amd64 and arm64 ports).
\<close>

type_synonym byte = "8 word"
type_synonym u32 = "32 word"
type_synonym i64 = "64 word"

subsection \<open>\<^verbatim>\<open>%d\<close>: decimal rendering\<close>

definition digit_char :: "nat \<Rightarrow> char" where
  "digit_char n = char_of (48 + n)"

function dec_nat :: "nat \<Rightarrow> string" where
  "dec_nat n = (if n < 10 then [digit_char n] else dec_nat (n div 10) @ [digit_char (n mod 10)])"
  by pat_completeness auto
termination
  by (relation "measure id") auto

declare dec_nat.simps [simp del]

definition fmt_d :: "int \<Rightarrow> string" where
  "fmt_d i = (if i < 0 then CHR ''-'' # dec_nat (nat (- i)) else dec_nat (nat i))"

subsection \<open>\<^verbatim>\<open>%x\<close> on a byte array: two lowercase hexadecimal digits per byte\<close>

definition hex_digit :: "nat \<Rightarrow> char" where
  "hex_digit n = (if n < 10 then char_of (48 + n) else char_of (87 + n))"

definition hex_byte :: "byte \<Rightarrow> string" where
  "hex_byte b = [hex_digit (unat b div 16), hex_digit (unat b mod 16)]"

definition fmt_x :: "byte list \<Rightarrow> string" where
  "fmt_x bs = concat (map hex_byte bs)"

subsection \<open>\<^verbatim>\<open>strings.Split\<close> with a one-byte separator\<close>

fun Split_from :: "char \<Rightarrow> string \<Rightarrow> string \<Rightarrow> string list" where
  "Split_from sep cur [] = [cur]"
| "Split_from sep cur (c # cs) =
     (if c = sep then cur # Split_from sep [] cs else Split_from sep (cur @ [c]) cs)"

definition Split :: "string \<Rightarrow> char \<Rightarrow> string list" where
  "Split s sep = Split_from sep [] s"

subsection \<open>\<^verbatim>\<open>strconv.Atoi\<close>\<close>

text \<open>
  \<^verbatim>\<open>Atoi\<close> accepts an optional sign followed by at least one decimal digit, and fails
  when the value does not fit a 64-bit \<^verbatim>\<open>int\<close>. \<open>None\<close> stands for a non-nil error.
\<close>

definition is_digit :: "char \<Rightarrow> bool" where
  "is_digit c = (48 \<le> (of_char c :: nat) \<and> (of_char c :: nat) \<le> 57)"

definition dec_value :: "string \<Rightarrow> int" where
  "dec_value s = foldl (\<lambda>acc c. 10 * acc + (of_char c - 48)) 0 s"

definition Atoi :: "string \<Rightarrow> int option" where
  "Atoi s =
     (let neg = (s \<noteq> [] \<and> hd s = CHR ''-'');
          ds = (if s \<noteq> [] \<and> (hd s = CHR ''+'' \<or> hd s = CHR ''-'') then tl s else s)
      in if ds = [] \<or> \<not> list_all is_digit ds then None
         else let n = dec_value ds in
           if neg then (if n \<le> 2 ^ 63 then Some (- n) else None)
           else (if n < 2 ^ 63 then Some n else None))"

subsection \<open>\<^verbatim>\<open>crypto/sha1\<close>\<close>

text \<open>
  SHA-1 as Go's \<^verbatim>\<open>crypto/sha1\<close> computes it (FIPS 180-4): the message is padded with
  \<^verbatim>\<open>0x80\<close>, zeros and its length in bits as a big-endian 64-bit number, and hashed in
  blocks of 64 bytes; every block runs 80 rounds over a schedule of 80 words.
  \<^verbatim>\<open>sha1.Sum\<close> returns a \<^verbatim>\<open>[20]byte\<close>.
\<close>

definition RotateLeft32 :: "u32 \<Rightarrow> nat \<Rightarrow> u32" where
  "RotateLeft32 x k = push_bit k x OR drop_bit (32 - k) x"

definition be32 :: "u32 \<Rightarrow> byte list" where
  "be32 w = [ucast (drop_bit 24 w), ucast (drop_bit 16 w), ucast (drop_bit 8 w), ucast w]"

definition be64 :: "64 word \<Rightarrow> byte list" where
  "be64 w = map (\<lambda>k. ucast (drop_bit k w)) [56, 48, 40, 32, 24, 16, 8, 0]"

definition sha1_pad :: "byte list \<Rightarrow> byte list" where
  "sha1_pad m = m @ [0x80] @ replicate ((119 - length m mod 64) mod 64) 0
                  @ be64 (of_nat (8 * length m))"

fun words_of :: "byte list \<Rightarrow> u32 list" where
  "words_of (a # b # c # d # rest) =
     (push_bit 24 (ucast a) OR push_bit 16 (ucast b) OR push_bit 8 (ucast c) OR ucast d)
       # words_of rest"
| "words_of _ = []"

fun schedule :: "nat \<Rightarrow> u32 list \<Rightarrow> u32 list" where
  "schedule 0 w = w"
| "schedule (Suc n) w =
     (let t = length w in
      schedule n (w @ [RotateLeft32
         (w ! (t - 3) XOR w ! (t - 8) XOR w ! (t - 14) XOR w ! (t - 16)) 1]))"

type_synonym sha1_regs = "u32 \<times> u32 \<times> u32 \<times> u32 \<times> u32"

definition sha1_f :: "nat \<Rightarrow> u32 \<Rightarrow> u32 \<Rightarrow> u32 \<Rightarrow> u32" where
  "sha1_f i b c d =
     (if i < 20 then (b AND c) OR (NOT b AND d)
      else if i < 40 then b XOR c XOR d
      else if i < 60 then ((b OR c) AND d) OR (b AND c)
      else b XOR c XOR d)"

definition sha1_K :: "nat \<Rightarrow> u32" where
  "sha1_K i =
     (if i < 20 then 0x5A827999
      else if i < 40 then 0x6ED9EBA1
      else if i < 60 then 0x8F1BBCDC
      else 0xCA62C1D6)"

definition sha1_round :: "u32 list \<Rightarrow> nat \<Rightarrow> sha1_regs \<Rightarrow> sha1_regs" where
  "sha1_round w i r =
     (case r of (a, b, c, d, e) \<Rightarrow>
        (RotateLeft32 a 5 + sha1_f i b c d + e + w ! i + sha1_K i,
         a, RotateLeft32 b 30, c, d))"

definition sha1_block :: "sha1_regs \<Rightarrow> byte list \<Rightarrow> sha1_regs" where
  "sha1_block h p =
     (let w = schedule 64 (words_of p) in
      case h of (h0, h1, h2, h3, h4) \<Rightarrow>
      case fold (sha1_round w) [0..<80] h of (a, b, c, d, e) \<Rightarrow>
        (h0 + a, h1 + b, h2 + c, h3 + d, h4 + e))"

function sha1_blocks :: "sha1_regs \<Rightarrow> byte list \<Rightarrow> sha1_regs" where
  "sha1_blocks h p =
     (if length p < 64 then h else sha1_blocks (sha1_block h (take 64 p)) (drop 64 p))"
  by pat_completeness auto
termination
  by (relation "measure (\<lambda>(h, p). length p)") auto

declare sha1_blocks.simps [simp del]

definition sha1_init :: sha1_regs where
  "sha1_init = (0x67452301, 0xEFCDAB89, 0x98BADCFE, 0x10325476, 0xC3D2E1F0)"

definition sha1_Sum :: "byte list \<Rightarrow> byte list" where
  "sha1_Sum m =
     (case sha1_blocks sha1_init (sha1_pad m) of (h0, h1, h2, h3, h4) \<Rightarrow>
        be32 h0 @ be32 h1 @ be32 h2 @ be32 h3 @ be32 h4)"

definition bytes_of :: "string \<Rightarrow> byte list" where
  "bytes_of s = map of_char s"


section \<open>Data model\<close>

subsection \<open>The debugger client's types\<close>

text \<open>
  The packages \<^verbatim>\<open>dbgClient\<close> and \<^verbatim>\<open>protocol/{shared,debugger,runtime,target}\<close> are
  imported by the proxy and are not among the source files. Their types are declared here
  with the fields the proxy reads and writes. A Go \<^verbatim>\<open>error\<close> is its text; a pointer that
  may be \<^verbatim>\<open>nil\<close> is an \<open>option\<close>. A routine id is the value of a Go \<^verbatim>\<open>int\<close>; the proxy
  does no arithmetic on it. Line numbers are 64-bit words: the proxy adds and subtracts 1.
\<close>

type_synonym goroutineID = int

record dbgClient_Location =
  File :: string
  Line :: i64
  Function :: "string option"  \<comment> \<open>\<^verbatim>\<open>Function.Name\<close>, \<open>None\<close> for a nil \<^verbatim>\<open>Function\<close>\<close>

record Stackframe =
  frame_Location :: dbgClient_Location

record Goroutine =
  ID :: int
  UserCurrentLoc :: dbgClient_Location

record State =
  SelectedGoroutine :: "Goroutine option"

record LoadConfig =
  FollowPointers :: bool
  MaxVariableRecurse :: int
  MaxStringLen :: int
  MaxArrayValues :: int
  MaxStructFields :: int

record EvalScope =
  GoroutineID :: int
  Frame :: int

subsection \<open>The protocol's types\<close>

record debuggerAgent_Location =
  ScriptId :: string
  LineNumber :: i64

record RemoteObject =
  object_Type :: string
  ObjectId :: "string option"

record Scope =
  scope_Type :: string
  Object :: RemoteObject

record CallFrame =
  CallFrameId :: string
  FunctionName :: string
  Location :: debuggerAgent_Location
  ScopeChain :: "Scope list"
  This :: RemoteObject
  ReturnValue :: "RemoteObject option"

record PausedEvent =
  Reason :: string
  CallFrames :: "CallFrame list"

record TargetInfo =
  TargetId :: string
  target_Type :: string
  Title :: string
  Url :: string

record AttachedToTargetEvent =
  Info :: TargetInfo  \<comment> \<open>the field \<^verbatim>\<open>TargetInfo\<close>\<close>
  WaitingForDebugger :: bool

record ScriptParsedEvent =
  script_ScriptId :: string
  script_Url :: string
  ExecutionContextId :: int

record ExceptionDetails =
  ExceptionId :: int
  Text :: string
  exception_LineNumber :: int
  ColumnNumber :: int

record SetBreakpointByUrlReturn =
  BreakpointId :: string
  Locations :: "debuggerAgent_Location list"

record EvaluateOnCallFrameReturn =
  Result :: "RemoteObject option"  \<comment> \<open>\<open>None\<close>: the struct literal leaves the field out\<close>
  exceptionDetails :: "ExceptionDetails option"

text \<open>The constants of the protocol packages, with the values of the DevTools protocol.\<close>

definition ScopeTypeLocal :: string where
  "ScopeTypeLocal = ''local''"

definition RemoteObjectTypeObject :: string where
  "RemoteObjectTypeObject = ''object''"

subsection \<open>Commands\<close>

record SetBreakpointByUrlCommand =
  cmd_LineNumber :: i64
  cmd_Url :: "string option"
  UrlRegex :: "string option"
  cmd_ColumnNumber :: "i64 option"
  Condition :: "string option"

record RemoveBreakpointCommand =
  cmd_BreakpointId :: string

record StepCommand =  \<comment> \<open>StepOver, StepInto, StepOut and Resume commands\<close>
  DestinationTargetID :: string

record EvaluateOnCallFrameCommand =
  eval_DestinationTargetID :: string
  cmd_CallFrameId :: string
  Expression :: string

subsection \<open>What a handler does: the trace\<close>

text \<open>
  Everything a handler does to the outside is an action: a call of the debugger client, a
  response to the command, an event fired on an agent, a lock operation, a line printed.
  A handler returns the actions in the order it performs them.
\<close>

datatype client_call =
    GetState
  | ListGoroutines
  | Stacktrace int int LoadConfig
  | SwitchGoroutine int
  | Next
  | Step
  | StepOut
  | Continue
  | CreateBreakpointAtLine string i64 string
  | ClearBreakpointByName string
  | EvalVariable EvalScope string LoadConfig

datatype error_code = ErrorCodeMethodNotFound | ErrorCodeInvalidParams | ErrorCodeInternalError

datatype response =
    Respond
  | RespondWithError error_code string
  | RespondSetBreakpointByUrl SetBreakpointByUrlReturn
  | RespondEvaluateOnCallFrame EvaluateOnCallFrameReturn

datatype event =
    AttachedToTarget AttachedToTargetEvent
  | DetachedFromTarget string
  | ScriptParsed ScriptParsedEvent
  | ScriptParsedOnTarget string ScriptParsedEvent
  | Resumed
  | ResumedOnTarget string
  | Paused PausedEvent
  | PausedOnTarget string PausedEvent

datatype mutex = activeTargetsMux | breakpointsMux

datatype action =
    Call client_call
  | Reply response
  | Fire event
  | Lock mutex
  | Unlock mutex
  | RLock mutex
  | RUnlock mutex
  | Println string

text \<open>
  A handler either returns or panics. The router starts every handler with a \<^verbatim>\<open>go\<close>
  statement and nothing recovers, so a panic ends the process.
\<close>

datatype panic_value =
    ErrorValue string   \<comment> \<open>\<^verbatim>\<open>panic(err)\<close> with an error of the debugger client, by its text\<close>
  | NumError string     \<comment> \<open>\<^verbatim>\<open>panic(err)\<close> with the error of \<^verbatim>\<open>strconv.Atoi\<close> on this input\<close>
  | Message string      \<comment> \<open>\<^verbatim>\<open>panic("...")\<close>\<close>
  | NilDereference      \<comment> \<open>the run-time panic of a nil pointer dereference\<close>

datatype outcome = Returned | Panicked panic_value

subsection \<open>The environment of one handler run\<close>

text \<open>
  The debugger client is an external collaborator. For one run of a handler it is given by
  the answer it makes to each call; an error is \<open>Inl\<close> or \<open>Some\<close> of its text.
  \<^verbatim>\<open>GetState\<close> answers a state pointer that may be nil; \<^verbatim>\<open>Continue\<close> answers a channel
  that is closed (\<open>None\<close>) or yields a state pointer. The type \<open>'v\<close> is
  \<^verbatim>\<open>dbgClient.Variable\<close>, which the proxy only hands on to the Runtime collaborator.

  Go ranges over a map in an order it chooses anew at every loop. The five map loops of the
  proxy each take their order from the environment, as a selection sequence (see
  \<open>range_order\<close>).
\<close>

record 'v dbgClient =
  GetState_result :: "string + State option"
  ListGoroutines_result :: "string + Goroutine list"
  Stacktrace_result :: "int \<Rightarrow> int \<Rightarrow> LoadConfig \<Rightarrow> string + Stackframe list"
  SwitchGoroutine_result :: "int \<Rightarrow> string option"
  Next_result :: "string option"
  Step_result :: "string option"
  StepOut_result :: "string option"
  Continue_result :: "State option option"
  CreateBreakpointAtLine_result :: "string \<Rightarrow> i64 \<Rightarrow> string \<Rightarrow> string option"
  ClearBreakpointByName_result :: "string \<Rightarrow> string option"
  EvalVariable_result :: "EvalScope \<Rightarrow> string \<Rightarrow> LoadConfig \<Rightarrow> string + 'v"
  resumed_order :: "nat list"   \<comment> \<open>the loop of \<^verbatim>\<open>sendResumeState\<close>\<close>
  stacks_order :: "nat list"    \<comment> \<open>the first loop of \<^verbatim>\<open>sendPauseState\<close>\<close>
  paused_order :: "nat list"    \<comment> \<open>the last loop of \<^verbatim>\<open>sendPauseState\<close>\<close>
  destroy_order :: "nat list"   \<comment> \<open>the second loop of \<^verbatim>\<open>syncGoroutines\<close>\<close>
  pick_order :: "nat list"      \<comment> \<open>the last loop of \<^verbatim>\<open>syncGoroutines\<close>\<close>

fun range_order :: "nat list \<Rightarrow> 'a list \<Rightarrow> 'a list" where
  "range_order [] xs = xs"
| "range_order (n # ns) xs =
     (if xs = [] then []
      else let i = n mod length xs
           in xs ! i # range_order ns (take i xs @ drop (Suc i) xs))"

subsection \<open>The proxy\<close>

text \<open>
  A \<^verbatim>\<open>Target\<close> holds its id and a pointer back to the one proxy, which the model passes
  along instead. \<^verbatim>\<open>activeTargets\<close> is a Go map; it is an association list here, read
  with \<^const>\<open>map_of\<close>, and its loops go through \<^const>\<open>range_order\<close>.
\<close>

record Target =
  target_ID :: goroutineID

record proxy =
  activeTargets :: "(goroutineID \<times> Target) list"
  fileList :: "string list"
  activeGoroutineID :: goroutineID
  breakpoints :: "string set"

text \<open>\<^verbatim>\<open>NewProxy\<close>: empty maps, no files, and the zero value as active routine.\<close>

definition NewProxy :: proxy where
  "NewProxy = \<lparr>activeTargets = [], fileList = [], activeGoroutineID = 0, breakpoints = {}\<rparr>"

text \<open>A run of an operation: how it ended, the proxy it left, and what it did.\<close>

type_synonym run = "outcome \<times> proxy \<times> action list"

definition and_then :: "run \<Rightarrow> (proxy \<Rightarrow> run) \<Rightarrow> run" where
  "and_then r f =
     (case r of
        (Returned, p, t) \<Rightarrow> (case f p of (oc, p', t') \<Rightarrow> (oc, p', t @ t'))
      | (Panicked m, p, t) \<Rightarrow> (Panicked m, p, t))"

text \<open>Actions done before a run, and deferred actions, done also when the run panics.\<close>

definition after :: "action list \<Rightarrow> run \<Rightarrow> run" where
  "after t0 r = (case r of (oc, p, t) \<Rightarrow> (oc, p, t0 @ t))"

definition deferred :: "run \<Rightarrow> action list \<Rightarrow> run" where
  "deferred r t1 = (case r of (oc, p, t) \<Rightarrow> (oc, p, t @ t1))"

section \<open>The operations of \<^verbatim>\<open>proxy.go\<close>\<close>

text \<open>
  Every function below is the function of that name in \<^verbatim>\<open>proxy.go\<close>, or a part of one
  that is named in the text before it. A method takes the proxy and returns a run. The
  functions \<^verbatim>\<open>Start\<close>, \<^verbatim>\<open>handleNotifications\<close> and \<^verbatim>\<open>getFileAndRespond\<close> wait on
  channels, start goroutines and read files; they are not modelled. What matters of the
  router here is that it starts each handler below in a goroutine of its own.
\<close>

subsection \<open>Targets\<close>

definition Attach :: "proxy \<Rightarrow> Target \<Rightarrow> Goroutine \<Rightarrow> action list" where
  "Attach p t routine =
     (let name = (case Function (UserCurrentLoc routine) of
                    None \<Rightarrow> []
                  | Some fname \<Rightarrow> '' '' @ last (Split fname CHR ''.''))
      in Fire (AttachedToTarget
           \<lparr>Info = \<lparr>TargetId = fmt_d (target_ID t), target_Type = ''node'', Title = ''tt'',
                    Url = fmt_d (target_ID t) @ '':'' @ name\<rparr>,
            WaitingForDebugger = False\<rparr>)
         # map (\<lambda>file. Fire (ScriptParsedOnTarget (fmt_d (target_ID t))
                  \<lparr>script_ScriptId = file, script_Url = file, ExecutionContextId = 1\<rparr>))
             (fileList p))"

definition Destroy :: "Target \<Rightarrow> action list" where
  "Destroy t = [Fire (DetachedFromTarget (fmt_d (target_ID t)))]"

definition FireResumed :: "Target \<Rightarrow> action list" where
  "FireResumed t = [Fire (ResumedOnTarget (fmt_d (target_ID t)))]"

definition buildScopeChain :: "int \<Rightarrow> Scope list" where
  "buildScopeChain frameId =
     [\<lparr>scope_Type = ScopeTypeLocal,
       Object = \<lparr>object_Type = RemoteObjectTypeObject,
                 ObjectId = Some (''local:'' @ fmt_d frameId)\<rparr>\<rparr>]"

text \<open>
  The loop that builds \<^verbatim>\<open>sendFrames\<close> stands twice in the source, with the same text: in
  \<^verbatim>\<open>Target.FirePaused\<close> and in \<^verbatim>\<open>sendPauseState\<close>.
\<close>

definition sendFrame :: "int \<Rightarrow> Stackframe \<Rightarrow> CallFrame" where
  "sendFrame index frame =
     \<lparr>CallFrameId = fmt_d index,
      FunctionName = (case Function (frame_Location frame) of
                        None \<Rightarrow> ''<Unknown>'' | Some name \<Rightarrow> name),
      Location = \<lparr>ScriptId = File (frame_Location frame),
                  LineNumber = Line (frame_Location frame) - 1\<rparr>,
      ScopeChain = buildScopeChain index,
      This = \<lparr>object_Type = ''undefined'', ObjectId = None\<rparr>,
      ReturnValue = None\<rparr>"

definition sendFrames :: "Stackframe list \<Rightarrow> CallFrame list" where
  "sendFrames callframes =
     map (\<lambda>(index, frame). sendFrame (int index) frame) (enumerate 0 callframes)"

definition FirePaused :: "Target \<Rightarrow> Stackframe list \<Rightarrow> action list" where
  "FirePaused t callframes =
     [Fire (PausedOnTarget (fmt_d (target_ID t))
        \<lparr>Reason = ''other'', CallFrames = sendFrames callframes\<rparr>)]"

definition buildLocation :: "string \<Rightarrow> i64 \<Rightarrow> debuggerAgent_Location" where
  "buildLocation file line = \<lparr>ScriptId = file, LineNumber = line\<rparr>"

subsection \<open>Resume fan-out and routine sync\<close>

definition sendResumeState :: "'v dbgClient \<Rightarrow> proxy \<Rightarrow> run" where
  "sendResumeState c p =
     (Returned, p,
      [RLock activeTargetsMux]
      @ concat (map (\<lambda>(routineID, target). FireResumed target)
                  (range_order (resumed_order c) (activeTargets p)))
      @ [Fire Resumed, RUnlock activeTargetsMux])"

text \<open>
  \<^verbatim>\<open>syncGoroutines\<close> has three loops: over the routines that the debugger lists
  (\<open>sync_attach\<close>, which also collects \<^verbatim>\<open>foundTargets\<close>), over \<^verbatim>\<open>activeTargets\<close> to
  destroy the targets that were not found (\<open>sync_destroy\<close>), and over \<^verbatim>\<open>activeTargets\<close>
  once more, left at the first entry, when the active routine is not a key (\<open>sync_pick\<close>).
  The write lock is released by a deferred call, so also when \<^verbatim>\<open>ListGoroutines\<close> fails and
  the function panics.
\<close>

fun sync_attach ::
  "Goroutine list \<Rightarrow> goroutineID set \<Rightarrow> proxy \<Rightarrow> action list
     \<Rightarrow> goroutineID set \<times> proxy \<times> action list" where
  "sync_attach [] foundTargets p t = (foundTargets, p, t)"
| "sync_attach (routine # routines) foundTargets p t =
     (let id = ID routine; foundTargets' = insert id foundTargets in
      case map_of (activeTargets p) id of
        Some _ \<Rightarrow> sync_attach routines foundTargets' p t
      | None \<Rightarrow>
          let target = \<lparr>target_ID = id\<rparr> in
          sync_attach routines foundTargets'
            (p\<lparr>activeTargets := activeTargets p @ [(id, target)]\<rparr>)
            (t @ Attach p target routine))"

fun sync_destroy ::
  "(goroutineID \<times> Target) list \<Rightarrow> goroutineID set \<Rightarrow> proxy \<Rightarrow> action list
     \<Rightarrow> proxy \<times> action list" where
  "sync_destroy [] foundTargets p t = (p, t)"
| "sync_destroy ((routineID, target) # rest) foundTargets p t =
     (if routineID \<in> foundTargets then sync_destroy rest foundTargets p t
      else sync_destroy rest foundTargets
             (p\<lparr>activeTargets := filter (\<lambda>(k, v). k \<noteq> routineID) (activeTargets p)\<rparr>)
             (t @ Destroy target))"

definition sync_pick :: "'v dbgClient \<Rightarrow> proxy \<Rightarrow> proxy" where
  "sync_pick c p =
     (case map_of (activeTargets p) (activeGoroutineID p) of
        Some _ \<Rightarrow> p
      | None \<Rightarrow>
          (case range_order (pick_order c) (activeTargets p) of
             [] \<Rightarrow> p
           | (index, _) # _ \<Rightarrow> p\<lparr>activeGoroutineID := index\<rparr>))"

definition syncGoroutines :: "'v dbgClient \<Rightarrow> proxy \<Rightarrow> run" where
  "syncGoroutines c p =
     deferred
       (after [Lock activeTargetsMux, Call ListGoroutines]
          (case ListGoroutines_result c of
             Inl err \<Rightarrow> (Panicked (ErrorValue err), p, [])
           | Inr routines \<Rightarrow>
               (case sync_attach routines {} p [] of
                  (foundTargets, p1, t1) \<Rightarrow>
                    (case sync_destroy (range_order (destroy_order c) (activeTargets p1))
                            foundTargets p1 t1 of
                       (p2, t2) \<Rightarrow> (Returned, sync_pick c p2, t2)))))
       [Unlock activeTargetsMux]"

subsection \<open>The pause snapshot\<close>

definition stackConfig :: LoadConfig where
  "stackConfig = \<lparr>FollowPointers = True, MaxVariableRecurse = 1, MaxStringLen = 1,
                  MaxArrayValues = 1, MaxStructFields = 1\<rparr>"

text \<open>
  The first loop of \<^verbatim>\<open>sendPauseState\<close>. \<^verbatim>\<open>targetsStacks\<close> is a map keyed by the
  target's pointer; every entry of \<^verbatim>\<open>activeTargets\<close> has a pointer of its own, so an
  assignment to it adds an entry.
\<close>

fun collect_stacks ::
  "'v dbgClient \<Rightarrow> goroutineID \<Rightarrow> (goroutineID \<times> Target) list
     \<Rightarrow> Stackframe list option \<Rightarrow> (Target \<times> Stackframe list) list \<Rightarrow> action list
     \<Rightarrow> (string + Stackframe list option \<times> (Target \<times> Stackframe list) list) \<times> action list"
  where
  "collect_stacks c active [] activeStack targetsStacks t = (Inr (activeStack, targetsStacks), t)"
| "collect_stacks c active ((routineID, target) # rest) activeStack targetsStacks t =
     (let t' = t @ [Call (Stacktrace routineID 50 stackConfig)] in
      case Stacktrace_result c routineID 50 stackConfig of
        Inl err \<Rightarrow> (Inl err, t')
      | Inr stacks \<Rightarrow>
          if routineID = active
          then collect_stacks c active rest (Some stacks) targetsStacks t'
          else collect_stacks c active rest activeStack (targetsStacks @ [(target, stacks)]) t')"

text \<open>
  The end of \<^verbatim>\<open>sendPauseState\<close>: the Paused event of the active stack on the default
  agent, if there is one, and then the loop over \<^verbatim>\<open>targetsStacks\<close>.
\<close>

definition firePauses ::
  "'v dbgClient \<Rightarrow> Stackframe list option \<Rightarrow> (Target \<times> Stackframe list) list \<Rightarrow> action list"
  where
  "firePauses c activeStack targetsStacks =
     (case activeStack of
        None \<Rightarrow> []
      | Some stack \<Rightarrow> [Fire (Paused \<lparr>Reason = ''other'', CallFrames = sendFrames stack\<rparr>)])
     @ concat (map (\<lambda>(target, stacks). FirePaused target stacks)
                 (range_order (paused_order c) targetsStacks))"

text \<open>
  \<^verbatim>\<open>sendPauseState\<close> takes the read lock without a deferred release: when
  \<^verbatim>\<open>Stacktrace\<close> fails it panics with the lock held.
\<close>

definition sendPauseState :: "'v dbgClient \<Rightarrow> proxy \<Rightarrow> run" where
  "sendPauseState c p =
     after [Call GetState]
       (case GetState_result c of
          Inl err \<Rightarrow> (Panicked (ErrorValue err), p, [])
        | Inr state \<Rightarrow>
            and_then (syncGoroutines c p) (\<lambda>p.
              if state = None
              then (Panicked (Message ''Called sendPauseState() but not paused.''), p, [])
              else
                (case collect_stacks c (activeGoroutineID p)
                        (range_order (stacks_order c) (activeTargets p)) None []
                        [RLock activeTargetsMux] of
                   (Inl err, t) \<Rightarrow> (Panicked (ErrorValue err), p, t)
                 | (Inr (activeStack, targetsStacks), t) \<Rightarrow>
                     (Returned, p,
                      t @ [RUnlock activeTargetsMux] @ firePauses c activeStack targetsStacks))))"

subsection \<open>Step and resume handlers\<close>

text \<open>
  Each of the four handlers starts with the same lines, which select the routine named by
  a non-empty \<^verbatim>\<open>DestinationTargetID\<close>.
\<close>

definition selectDestination :: "string \<Rightarrow> proxy \<Rightarrow> run" where
  "selectDestination dest p =
     (if dest \<noteq> []
      then (case Atoi dest of
              Some targetID \<Rightarrow> (Returned, p\<lparr>activeGoroutineID := targetID\<rparr>, [])
            | None \<Rightarrow>
                (Panicked (NumError dest), p,
                 [Reply (RespondWithError ErrorCodeInternalError
                           ''Could not convert targetID to int'')]))
      else (Returned, p, []))"

definition switchGoroutine :: "'v dbgClient \<Rightarrow> proxy \<Rightarrow> run" where
  "switchGoroutine c p =
     after [Call (SwitchGoroutine (activeGoroutineID p))]
       (case SwitchGoroutine_result c (activeGoroutineID p) of
          Some err \<Rightarrow>
            (Panicked (ErrorValue err), p, [Reply (RespondWithError ErrorCodeInternalError err)])
        | None \<Rightarrow> (Returned, p, []))"

text \<open>
  \<^verbatim>\<open>stepOverAndRespond\<close>, \<^verbatim>\<open>stepIntoAndRespond\<close> and \<^verbatim>\<open>stepOutAndRespond\<close> differ in
  the primitive they call: \<^verbatim>\<open>Next\<close>, \<^verbatim>\<open>Step\<close>, \<^verbatim>\<open>StepOut\<close>.
\<close>

definition stepAndRespond ::
  "client_call \<Rightarrow> string option \<Rightarrow> 'v dbgClient \<Rightarrow> StepCommand \<Rightarrow> proxy \<Rightarrow> run" where
  "stepAndRespond primitive primitive_result c command p =
     and_then (selectDestination (DestinationTargetID command) p) (\<lambda>p.
     and_then (switchGoroutine c p) (\<lambda>p.
     and_then (sendResumeState c p) (\<lambda>p.
     after [Call primitive]
       (case primitive_result of
          Some err \<Rightarrow>
            (Panicked (ErrorValue err), p, [Reply (RespondWithError ErrorCodeInternalError err)])
        | None \<Rightarrow> after [Reply Respond] (sendPauseState c p)))))"

definition stepOverAndRespond :: "'v dbgClient \<Rightarrow> StepCommand \<Rightarrow> proxy \<Rightarrow> run" where
  "stepOverAndRespond c command p = stepAndRespond Next (Next_result c) c command p"

definition stepIntoAndRespond :: "'v dbgClient \<Rightarrow> StepCommand \<Rightarrow> proxy \<Rightarrow> run" where
  "stepIntoAndRespond c command p = stepAndRespond Step (Step_result c) c command p"

definition stepOutAndRespond :: "'v dbgClient \<Rightarrow> StepCommand \<Rightarrow> proxy \<Rightarrow> run" where
  "stepOutAndRespond c command p = stepAndRespond StepOut (StepOut_result c) c command p"

definition continueAndRespond :: "'v dbgClient \<Rightarrow> StepCommand \<Rightarrow> proxy \<Rightarrow> run" where
  "continueAndRespond c command p =
     and_then (selectDestination (DestinationTargetID command) p) (\<lambda>p.
     and_then (switchGoroutine c p) (\<lambda>p.
     after [Reply Respond] (
     and_then (sendResumeState c p) (\<lambda>p.
     after [Call Continue]
       (case Continue_result c of
          None \<Rightarrow> (Panicked (Message ''It appears program has exited''), p, [])
        | Some state \<Rightarrow>
            sendPauseState c
              (case state of
                 None \<Rightarrow> p
               | Some st \<Rightarrow>
                   (case SelectedGoroutine st of
                      None \<Rightarrow> p
                    | Some g \<Rightarrow> p\<lparr>activeGoroutineID := ID g\<rparr>)))))))"

subsection \<open>Breakpoints\<close>

text \<open>
  The local variable \<^verbatim>\<open>breakpointKey\<close> of \<^verbatim>\<open>setBreakpointAndRespond\<close>. The line number
  is formatted with \<^verbatim>\<open>%d\<close> as the signed 64-bit number it is.
\<close>

definition breakpointKey :: "string \<Rightarrow> i64 \<Rightarrow> string" where
  "breakpointKey url lineNumber =
     CHR ''a'' # fmt_x (sha1_Sum (bytes_of (url @ '':'' @ fmt_d (sint lineNumber))))"

text \<open>
  \<^verbatim>\<open>sendBreakpointSet\<close> dereferences \<^verbatim>\<open>command.Url\<close>; both of its callers have checked
  that it is not nil.
\<close>

definition sendBreakpointSet :: "SetBreakpointByUrlCommand \<Rightarrow> string \<Rightarrow> proxy \<Rightarrow> run" where
  "sendBreakpointSet command breakpointId p =
     (case cmd_Url command of
        None \<Rightarrow> (Panicked NilDereference, p, [])
      | Some url \<Rightarrow>
          (Returned, p,
           [Reply (RespondSetBreakpointByUrl
              \<lparr>BreakpointId = breakpointId,
               Locations = [buildLocation url (cmd_LineNumber command)]\<rparr>)]))"

text \<open>
  \<^verbatim>\<open>setBreakpointAndRespond\<close> holds \<^verbatim>\<open>breakpointsMux\<close> from the lookup to its return; the
  release is deferred.
\<close>

definition setBreakpointAndRespond ::
  "'v dbgClient \<Rightarrow> SetBreakpointByUrlCommand \<Rightarrow> proxy \<Rightarrow> run" where
  "setBreakpointAndRespond c command p =
     (if UrlRegex command \<noteq> None
      then (Returned, p,
            [Reply (RespondWithError ErrorCodeInvalidParams ''urlRegex not available'')])
      else if cmd_ColumnNumber command \<noteq> None \<and> cmd_ColumnNumber command \<noteq> Some 0
      then (Returned, p,
            [Reply (RespondWithError ErrorCodeInvalidParams ''columnNumber not available'')])
      else if Condition command \<noteq> None \<and> Condition command \<noteq> Some []
      then (Returned, p,
            [Reply (RespondWithError ErrorCodeInvalidParams ''condition not available'')])
      else
        (case cmd_Url command of
           None \<Rightarrow>
             (Returned, p, [Reply (RespondWithError ErrorCodeInvalidParams ''url must be set'')])
         | Some url \<Rightarrow>
             (let key = breakpointKey url (cmd_LineNumber command) in
              deferred
                (after [Lock breakpointsMux]
                   (if key \<in> breakpoints p
                    then sendBreakpointSet command key p
                    else
                      after [Call (CreateBreakpointAtLine url (cmd_LineNumber command + 1) key)]
                        (case CreateBreakpointAtLine_result c url
                                (cmd_LineNumber command + 1) key of
                           Some err \<Rightarrow>
                             (Returned, p\<lparr>breakpoints := breakpoints p - {key}\<rparr>,
                              [Reply (RespondWithError ErrorCodeInternalError err)])
                         | None \<Rightarrow>
                             sendBreakpointSet command key
                               (p\<lparr>breakpoints := insert key (breakpoints p)\<rparr>))))
                [Unlock breakpointsMux])))"

definition removeBreakpointAndRespond ::
  "'v dbgClient \<Rightarrow> RemoveBreakpointCommand \<Rightarrow> proxy \<Rightarrow> run" where
  "removeBreakpointAndRespond c command p =
     (let breakpointId = cmd_BreakpointId command in
      (Returned, p\<lparr>breakpoints := breakpoints p - {breakpointId}\<rparr>,
       [Lock breakpointsMux, Unlock breakpointsMux, Call (ClearBreakpointByName breakpointId),
        Reply (case ClearBreakpointByName_result c breakpointId of
                 Some err \<Rightarrow> RespondWithError ErrorCodeInternalError err
               | None \<Rightarrow> Respond)]))"

subsection \<open>Evaluation\<close>

definition evalConfig :: LoadConfig where
  "evalConfig = \<lparr>FollowPointers = True, MaxVariableRecurse = 1, MaxStringLen = 500,
                 MaxArrayValues = 1, MaxStructFields = 1\<rparr>"

text \<open>
  \<open>MakeRemoteObject\<close> is the method of the Runtime collaborator (the interface
  \<^verbatim>\<open>runtimer\<close>), given to the proxy by \<^verbatim>\<open>Start\<close>.
\<close>

definition evaluateOnGoroutineAndRespond ::
  "'v dbgClient \<Rightarrow> ('v \<Rightarrow> RemoteObject) \<Rightarrow> EvaluateOnCallFrameCommand \<Rightarrow> proxy \<Rightarrow> run" where
  "evaluateOnGoroutineAndRespond c MakeRemoteObject command p =
     (case (if eval_DestinationTargetID command \<noteq> []
            then Atoi (eval_DestinationTargetID command)
            else Some (activeGoroutineID p)) of
        None \<Rightarrow>
          (Panicked (NumError (eval_DestinationTargetID command)), p,
           [Reply (RespondWithError ErrorCodeInternalError ''Could not convert targetID to int'')])
      | Some goroutineID \<Rightarrow>
          (case Atoi (cmd_CallFrameId command) of
             None \<Rightarrow> (Panicked (NumError (cmd_CallFrameId command)), p, [])
           | Some frameId \<Rightarrow>
               (let scope = \<lparr>GoroutineID = goroutineID, Frame = frameId\<rparr> in
                after [Call (EvalVariable scope (Expression command) evalConfig)]
                  (case EvalVariable_result c scope (Expression command) evalConfig of
                     Inl err \<Rightarrow>
                       (Returned, p,
                        [Println (''Error: '' @ err),
                         Reply (RespondEvaluateOnCallFrame
                           \<lparr>Result = None,
                            exceptionDetails = Some
                              \<lparr>ExceptionId = 1, Text = err,
                               exception_LineNumber = - 1, ColumnNumber = - 1\<rparr>\<rparr>)])
                   | Inr variable \<Rightarrow>
                       (Returned, p,
                        [Reply (RespondEvaluateOnCallFrame
                           \<lparr>Result = Some (MakeRemoteObject variable),
                            exceptionDetails = None\<rparr>)])))))"

section \<open>Observing a trace\<close>

fun calls_of :: "action list \<Rightarrow> client_call list" where
  "calls_of [] = []"
| "calls_of (Call cc # t) = cc # calls_of t"
| "calls_of (a # t) = calls_of t"

fun replies_of :: "action list \<Rightarrow> response list" where
  "replies_of [] = []"
| "replies_of (Reply r # t) = r # replies_of t"
| "replies_of (a # t) = replies_of t"

fun is_default_paused :: "action \<Rightarrow> bool" where
  "is_default_paused (Fire (Paused e)) = True"
| "is_default_paused a = False"

fun is_target_paused :: "action \<Rightarrow> bool" where
  "is_target_paused (Fire (PausedOnTarget targetId e)) = True"
| "is_target_paused a = False"

fun paused_event :: "action \<Rightarrow> PausedEvent option" where
  "paused_event (Fire (Paused e)) = Some e"
| "paused_event (Fire (PausedOnTarget targetId e)) = Some e"
| "paused_event a = None"

text \<open>The events that \<^verbatim>\<open>Attach\<close> and \<^verbatim>\<open>Destroy\<close> fire.\<close>

fun is_target_event :: "action \<Rightarrow> bool" where
  "is_target_event (Fire (AttachedToTarget e)) = True"
| "is_target_event (Fire (DetachedFromTarget targetId)) = True"
| "is_target_event (Fire (ScriptParsedOnTarget targetId e)) = True"
| "is_target_event a = False"

fun is_lock_action :: "action \<Rightarrow> bool" where
  "is_lock_action (Lock m) = True"
| "is_lock_action (Unlock m) = True"
| "is_lock_action (RLock m) = True"
| "is_lock_action (RUnlock m) = True"
| "is_lock_action a = False"

text \<open>The parameters that \<^verbatim>\<open>setBreakpointAndRespond\<close> lets through, with the url \<open>url\<close>.\<close>

definition accepted :: "SetBreakpointByUrlCommand \<Rightarrow> string \<Rightarrow> bool" where
  "accepted command url =
     (UrlRegex command = None
      \<and> cmd_ColumnNumber command \<in> {None, Some 0}
      \<and> Condition command \<in> {None, Some []}
      \<and> cmd_Url command = Some url)"

text \<open>The regular expression \<^verbatim>\<open>^a[0-9a-f]{40}$\<close>.\<close>

definition is_lower_hex :: "char \<Rightarrow> bool" where
  "is_lower_hex c = (c \<in> set ''0123456789abcdef'')"

definition matches_fingerprint_form :: "string \<Rightarrow> bool" where
  "matches_fingerprint_form s =
     (case s of [] \<Rightarrow> False
      | c # cs \<Rightarrow> c = CHR ''a'' \<and> length cs = 40 \<and> list_all is_lower_hex cs)"

text \<open>
  The last dot-segment of a name, in the words of the specification: the part of the name
  after its last dot, or the whole name when it has no dot.
\<close>

definition is_last_dot_segment :: "string \<Rightarrow> string \<Rightarrow> bool" where
  "is_last_dot_segment seg name =
     (CHR ''.'' \<notin> set seg
      \<and> (name = seg
         \<or> (length seg < length name
            \<and> drop (length name - Suc (length seg)) name = CHR ''.'' # seg)))"

text \<open>
  Two invocations of \<^verbatim>\<open>SetBreakpointByUrl\<close>, one after the other: the second runs on the
  proxy that the first has left, and the debugger client may answer each differently.
\<close>

definition setBreakpointTwice ::
  "'v dbgClient \<Rightarrow> 'v dbgClient \<Rightarrow> SetBreakpointByUrlCommand \<Rightarrow> SetBreakpointByUrlCommand
     \<Rightarrow> proxy \<Rightarrow> run" where
  "setBreakpointTwice c1 c2 command1 command2 p =
     and_then (setBreakpointAndRespond c1 command1 p) (setBreakpointAndRespond c2 command2)"

section \<open>Concrete inputs\<close>

text \<open>
  The inputs at which the theorems below are instantiated. \<open>quiet_client\<close> is a debugger
  client that is paused, lists no routine and accepts every call; the other clients differ
  from it in one answer or a few.
\<close>

definition quiet_client :: "unit dbgClient" where
  "quiet_client =
     \<lparr>GetState_result = Inr (Some \<lparr>SelectedGoroutine = None\<rparr>),
      ListGoroutines_result = Inr [],
      Stacktrace_result = (\<lambda>routine depth cfg. Inr []),
      SwitchGoroutine_result = (\<lambda>routine. None),
      Next_result = None, Step_result = None, StepOut_result = None,
      Continue_result = Some None,
      CreateBreakpointAtLine_result = (\<lambda>file line name. None),
      ClearBreakpointByName_result = (\<lambda>name. None),
      EvalVariable_result = (\<lambda>scope expr cfg. Inr ()),
      resumed_order = [], stacks_order = [], paused_order = [], destroy_order = [],
      pick_order = []\<rparr>"

definition failing_create_client :: "unit dbgClient" where
  "failing_create_client =
     quiet_client\<lparr>CreateBreakpointAtLine_result := (\<lambda>file line name. Some ''no such file'')\<rparr>"

definition failing_eval_client :: "unit dbgClient" where
  "failing_eval_client =
     quiet_client\<lparr>EvalVariable_result := (\<lambda>scope expr cfg. Inl ''undefined symbol'')\<rparr>"

definition failing_switch_client :: "unit dbgClient" where
  "failing_switch_client =
     quiet_client\<lparr>SwitchGoroutine_result := (\<lambda>routine. Some ''unknown goroutine'')\<rparr>"

definition failing_step_client :: "unit dbgClient" where
  "failing_step_client =
     quiet_client\<lparr>Next_result := Some ''process exited'',
                  Step_result := Some ''process exited'',
                  StepOut_result := Some ''process exited'',
                  CreateBreakpointAtLine_result := (\<lambda>file line name. Some ''process exited''),
                  ClearBreakpointByName_result := (\<lambda>name. Some ''process exited'')\<rparr>"

definition failing_state_client :: "unit dbgClient" where
  "failing_state_client = quiet_client\<lparr>GetState_result := Inl ''connection lost''\<rparr>"

text \<open>Routines and a stack that the debugger reports.\<close>

definition worker_routine :: Goroutine where
  "worker_routine =
     \<lparr>ID = 7, UserCurrentLoc = \<lparr>File = ''/a/b.go'', Line = 11, Function = Some ''main.worker''\<rparr>\<rparr>"

definition other_routine :: Goroutine where
  "other_routine =
     \<lparr>ID = 8, UserCurrentLoc = \<lparr>File = ''/a/c.go'', Line = 3, Function = None\<rparr>\<rparr>"

definition scenario_stack :: "Stackframe list" where
  "scenario_stack =
     [\<lparr>frame_Location = \<lparr>File = ''/a/b.go'', Line = 11, Function = Some ''main.worker''\<rparr>\<rparr>]"

definition one_routine_client :: "unit dbgClient" where
  "one_routine_client = quiet_client\<lparr>ListGoroutines_result := Inr [worker_routine]\<rparr>"

definition not_paused_client :: "unit dbgClient" where
  "not_paused_client = one_routine_client\<lparr>GetState_result := Inr None\<rparr>"

definition two_routine_client :: "unit dbgClient" where
  "two_routine_client =
     quiet_client\<lparr>ListGoroutines_result := Inr [worker_routine, other_routine],
                  Stacktrace_result := (\<lambda>routine depth cfg. Inr scenario_stack)\<rparr>"

text \<open>Commands, a Runtime collaborator, and proxies.\<close>

definition scenario_command :: SetBreakpointByUrlCommand where
  "scenario_command =
     \<lparr>cmd_LineNumber = 10, cmd_Url = Some ''/a/b.src'', UrlRegex = None,
      cmd_ColumnNumber = None, Condition = None\<rparr>"

definition scenario_remove_command :: RemoveBreakpointCommand where
  "scenario_remove_command = \<lparr>cmd_BreakpointId = ''a0''\<rparr>"

definition resume_command :: StepCommand where
  "resume_command = \<lparr>DestinationTargetID = []\<rparr>"

definition scenario_eval_command :: EvaluateOnCallFrameCommand where
  "scenario_eval_command =
     \<lparr>eval_DestinationTargetID = [], cmd_CallFrameId = ''0'', Expression = ''oops''\<rparr>"

definition unit_object :: "unit \<Rightarrow> RemoteObject" where
  "unit_object v = \<lparr>object_Type = ''object'', ObjectId = None\<rparr>"

definition proxy_with_target :: proxy where
  "proxy_with_target =
     NewProxy\<lparr>activeTargets := [(7, \<lparr>target_ID = 7\<rparr>)], activeGoroutineID := 7\<rparr>"

definition registered_proxy :: proxy where
  "registered_proxy = NewProxy\<lparr>breakpoints := {breakpointKey ''/a/b.src'' 10}\<rparr>"

section \<open>Breakpoint identifiers\<close>

lemma calls_of_append [simp]: "calls_of (xs @ ys) = calls_of xs @ calls_of ys"
  by (induction xs rule: calls_of.induct) simp_all

lemma replies_of_append [simp]: "replies_of (xs @ ys) = replies_of xs @ replies_of ys"
  by (induction xs rule: replies_of.induct) simp_all

lemma length_be32 [simp]: "length (be32 w) = 4"
  by (simp add: be32_def)

lemma length_sha1_Sum [simp]: "length (sha1_Sum m) = 20"
  by (simp add: sha1_Sum_def split: prod.split)

lemma hex_digit_table: "map hex_digit [0..<16] = ''0123456789abcdef''"
  by code_simp

lemma hex_digit_lower: "n < 16 \<Longrightarrow> is_lower_hex (hex_digit n)"
proof -
  assume n: "n < 16"
  then have "hex_digit n = map hex_digit [0..<16] ! n"
    by simp
  also have "\<dots> \<in> set (map hex_digit [0..<16])"
    using n by (intro nth_mem) simp
  finally show ?thesis
    unfolding is_lower_hex_def hex_digit_table .
qed

lemma hex_byte_lower: "list_all is_lower_hex (hex_byte b)"
proof -
  have "unat b < 256" using unsigned_less [of b] by simp
  then have "unat b div 16 < 16" by simp
  then show ?thesis by (simp add: hex_byte_def hex_digit_lower)
qed

lemma length_fmt_x [simp]: "length (fmt_x bs) = 2 * length bs"
  by (induction bs) (simp_all add: fmt_x_def hex_byte_def)

lemma fmt_x_lower: "list_all is_lower_hex (fmt_x bs)"
  by (induction bs) (simp_all add: fmt_x_def hex_byte_lower)

lemma breakpointKey_form: "matches_fingerprint_form (breakpointKey url lineNumber)"
  by (simp add: matches_fingerprint_form_def breakpointKey_def fmt_x_lower)

lemma replies_sendBreakpointSet:
  "Reply (RespondSetBreakpointByUrl ret) \<in> set (snd (snd (sendBreakpointSet command key p)))
   \<Longrightarrow> BreakpointId ret = key"
  by (auto simp: sendBreakpointSet_def split: option.splits)

lemma after_simp [simp]: "after t0 (oc, p, t) = (oc, p, t0 @ t)"
  by (simp add: after_def)

lemma deferred_simp [simp]: "deferred (oc, p, t) t1 = (oc, p, t @ t1)"
  by (simp add: deferred_def)

lemma and_then_Returned [simp]: "and_then (Returned, p, t) f = after t (f p)"
  by (simp add: and_then_def after_def split: prod.split)

lemma and_then_Panicked [simp]: "and_then (Panicked m, p, t) f = (Panicked m, p, t)"
  by (simp add: and_then_def)

lemma sendBreakpointSet_Some:
  "cmd_Url command = Some url \<Longrightarrow>
   sendBreakpointSet command key p =
     (Returned, p,
      [Reply (RespondSetBreakpointByUrl
         \<lparr>BreakpointId = key, Locations = [buildLocation url (cmd_LineNumber command)]\<rparr>)])"
  by (simp add: sendBreakpointSet_def)

lemma setBreakpoint_accepted:
  assumes "accepted command url"
  shows "setBreakpointAndRespond c command p =
    (let line = cmd_LineNumber command; key = breakpointKey url line;
         success = Reply (RespondSetBreakpointByUrl
                     \<lparr>BreakpointId = key, Locations = [buildLocation url line]\<rparr>)
     in if key \<in> breakpoints p
        then (Returned, p, [Lock breakpointsMux, success, Unlock breakpointsMux])
        else (case CreateBreakpointAtLine_result c url (line + 1) key of
                Some err \<Rightarrow>
                  (Returned, p,
                   [Lock breakpointsMux, Call (CreateBreakpointAtLine url (line + 1) key),
                    Reply (RespondWithError ErrorCodeInternalError err),
                    Unlock breakpointsMux])
              | None \<Rightarrow>
                  (Returned, p\<lparr>breakpoints := insert key (breakpoints p)\<rparr>,
                   [Lock breakpointsMux, Call (CreateBreakpointAtLine url (line + 1) key),
                    success, Unlock breakpointsMux])))"
proof -
  have u: "cmd_Url command = Some url"
    using assms by (simp add: accepted_def)
  have gate: "UrlRegex command = None"
    "\<not> (cmd_ColumnNumber command \<noteq> None \<and> cmd_ColumnNumber command \<noteq> Some 0)"
    "\<not> (Condition command \<noteq> None \<and> Condition command \<noteq> Some [])"
    using assms by (auto simp: accepted_def)
  show ?thesis
    unfolding setBreakpointAndRespond_def
    by (simp only: gate u if_False if_True simp_thms option.case)
       (simp add: Let_def sendBreakpointSet_Some [OF u] split: option.split)
qed

lemma setBreakpoint_rejected:
  assumes "\<And>url. \<not> accepted command url"
  shows "\<exists>reason. setBreakpointAndRespond c command p =
           (Returned, p, [Reply (RespondWithError ErrorCodeInvalidParams reason)])"
proof (cases "cmd_Url command")
  case None
  then show ?thesis
    by (simp add: setBreakpointAndRespond_def)
next
  case (Some url)
  with assms [of url] show ?thesis
    by (auto simp: setBreakpointAndRespond_def accepted_def)
qed

text \<open>
  Claim C3 (fingerprint form). Every success response of \<^verbatim>\<open>SetBreakpointByUrl\<close> to a
  command with url \<open>url\<close> carries as BreakpointId the character \<^verbatim>\<open>a\<close> followed by the
  lowercase hexadecimal rendering of the SHA-1 digest of \<open>url\<close>, a colon and the decimal
  line number as received; so it matches \<^verbatim>\<open>^a[0-9a-f]{40}$\<close>.
\<close>

theorem fingerprint_form:
  assumes "cmd_Url command = Some url"
    and "Reply (RespondSetBreakpointByUrl ret)
           \<in> set (snd (snd (setBreakpointAndRespond c command p)))"
  shows "BreakpointId ret
           = CHR ''a'' # fmt_x (sha1_Sum (bytes_of
               (url @ '':'' @ fmt_d (sint (cmd_LineNumber command)))))
         \<and> matches_fingerprint_form (BreakpointId ret)"
proof -
  have key: "BreakpointId ret = breakpointKey url (cmd_LineNumber command)"
  proof (cases "accepted command url")
    case True
    from assms(2) show ?thesis
      unfolding setBreakpoint_accepted [OF True]
      by (auto simp: Let_def split: if_splits option.splits)
  next
    case False
    with assms(1) have "\<And>u. \<not> accepted command u"
      by (auto simp: accepted_def)
    from setBreakpoint_rejected [OF this, of c p] assms(2) show ?thesis
      by auto
  qed
  show ?thesis
    using breakpointKey_form [of url "cmd_LineNumber command"]
    unfolding key by (simp add: breakpointKey_def)
qed

theorem fingerprint_form_witness:
  "cmd_Url scenario_command = Some ''/a/b.src''
   \<and> Reply (RespondSetBreakpointByUrl
          \<lparr>BreakpointId = breakpointKey ''/a/b.src'' 10,
           Locations = [buildLocation ''/a/b.src'' 10]\<rparr>)
       \<in> set (snd (snd (setBreakpointAndRespond quiet_client scenario_command NewProxy)))
   \<and> breakpointKey ''/a/b.src'' 10
       = CHR ''a'' # fmt_x (sha1_Sum (bytes_of (''/a/b.src'' @ '':'' @ fmt_d (sint (10 :: i64)))))
   \<and> matches_fingerprint_form (breakpointKey ''/a/b.src'' 10)"
proof -
  have u: "cmd_Url scenario_command = Some ''/a/b.src''"
    by (simp add: scenario_command_def)
  have r: "Reply (RespondSetBreakpointByUrl
          \<lparr>BreakpointId = breakpointKey ''/a/b.src'' 10,
           Locations = [buildLocation ''/a/b.src'' 10]\<rparr>)
       \<in> set (snd (snd (setBreakpointAndRespond quiet_client scenario_command NewProxy)))"
    by (simp add: setBreakpointAndRespond_def scenario_command_def quiet_client_def
          NewProxy_def sendBreakpointSet_def Let_def)
  have l: "cmd_LineNumber scenario_command = 10"
    by (simp add: scenario_command_def)
  have "breakpointKey ''/a/b.src'' 10
          = CHR ''a'' # fmt_x (sha1_Sum (bytes_of
              (''/a/b.src'' @ '':'' @ fmt_d (sint (10 :: i64)))))
        \<and> matches_fingerprint_form (breakpointKey ''/a/b.src'' 10)"
    by (rule fingerprint_form [OF u r, unfolded l SetBreakpointByUrlReturn.select_convs])
  with u r show ?thesis
    by blast
qed

section \<open>Targets\<close>

lemma range_order_Nil [simp]: "range_order ns [] = []"
  by (cases ns) simp_all

lemma set_range_order [simp]: "set (range_order ns xs) = set xs"
proof (induction ns arbitrary: xs)
  case Nil
  show ?case by simp
next
  case (Cons n ns)
  show ?case
  proof (cases "xs = []")
    case True
    then show ?thesis by simp
  next
    case False
    let ?i = "n mod length xs"
    from False have i: "?i < length xs" by simp
    have "set xs = set (take ?i xs @ xs ! ?i # drop (Suc ?i) xs)"
      using id_take_nth_drop [OF i] by simp
    then show ?thesis
      using False Cons.IH [of "take ?i xs @ drop (Suc ?i) xs"]
      by (auto simp: Let_def)
  qed
qed

lemma length_range_order [simp]: "length (range_order ns xs) = length xs"
proof (induction ns arbitrary: xs)
  case Nil
  show ?case by simp
next
  case (Cons n ns)
  show ?case
  proof (cases "xs = []")
    case True
    then show ?thesis by simp
  next
    case False
    let ?i = "n mod length xs"
    from False have i: "?i < length xs" by simp
    then have "length (take ?i xs @ drop (Suc ?i) xs) = length xs - 1"
      by simp
    with False i show ?thesis
      using Cons.IH [of "take ?i xs @ drop (Suc ?i) xs"]
      by (simp add: Let_def)
  qed
qed

lemma Split_from_nonempty [simp]: "Split_from sep cur s \<noteq> []"
  by (induction s arbitrary: cur) simp_all

lemma Split_from_last:
  "sep \<notin> set cur \<Longrightarrow>
   sep \<notin> set (last (Split_from sep cur s))
   \<and> (cur @ s = last (Split_from sep cur s)
      \<or> (\<exists>front. cur @ s = front @ sep # last (Split_from sep cur s)))"
proof (induction s arbitrary: cur)
  case Nil
  then show ?case by simp
next
  case (Cons c cs)
  show ?case
  proof (cases "c = sep")
    case True
    let ?l = "last (Split_from sep [] cs)"
    have l: "last (Split_from sep cur (c # cs)) = ?l"
      using True by simp
    have ih: "sep \<notin> set ?l \<and> ([] @ cs = ?l \<or> (\<exists>front. [] @ cs = front @ sep # ?l))"
      by (rule Cons.IH) simp
    then consider "cs = ?l" | front where "cs = front @ sep # ?l"
      by auto
    then have "\<exists>front. cur @ c # cs = front @ sep # ?l"
    proof cases
      case 1
      then have "cur @ c # cs = cur @ sep # ?l"
        using True by simp
      then show ?thesis ..
    next
      case 2
      then have "cur @ c # cs = (cur @ sep # front) @ sep # ?l"
        using True by simp
      then show ?thesis ..
    qed
    with ih show ?thesis
      unfolding l by blast
  next
    case False
    with Cons.prems have "sep \<notin> set (cur @ [c])" by simp
    from Cons.IH [OF this] False show ?thesis by simp
  qed
qed

lemma last_Split_segment: "is_last_dot_segment (last (Split name CHR ''.'')) name"
proof -
  let ?l = "last (Split name CHR ''.'')"
  have *: "CHR ''.'' \<notin> set ?l \<and> (name = ?l \<or> (\<exists>front. name = front @ CHR ''.'' # ?l))"
    using Split_from_last [of "CHR ''.''" "[]" name] by (simp add: Split_def)
  then consider "name = ?l" | front where "name = front @ CHR ''.'' # ?l"
    by blast
  then have "name = ?l \<or> (length ?l < length name
            \<and> drop (length name - Suc (length ?l)) name = CHR ''.'' # ?l)"
  proof cases
    case 1
    then show ?thesis by simp
  next
    case 2
    have "length name = length front + Suc (length ?l)"
      by (subst 2) simp
    moreover have "drop (length front) name = CHR ''.'' # ?l"
      by (subst 2) simp
    ultimately show ?thesis by simp
  qed
  with * show ?thesis
    by (simp add: is_last_dot_segment_def)
qed

text \<open>
  Claim C9 (target display title), as amended. \<^verbatim>\<open>Attach\<close> fires one AttachedToTarget
  event whose \<^verbatim>\<open>Title\<close> is the constant \<^verbatim>\<open>tt\<close>. It is the \<^verbatim>\<open>Url\<close> of the event that is
  derived from the routine: the decimal routine id and a colon, followed, when the routine's
  current function is known, by a space and the last dot-segment of the function's name.
\<close>

theorem attach_title_and_url:
  "\<exists>e. Attach p t routine =
         Fire (AttachedToTarget e)
         # map (\<lambda>file. Fire (ScriptParsedOnTarget (fmt_d (target_ID t))
                  \<lparr>script_ScriptId = file, script_Url = file, ExecutionContextId = 1\<rparr>))
             (fileList p)
       \<and> TargetId (Info e) = fmt_d (target_ID t)
       \<and> Title (Info e) = ''tt''
       \<and> (case Function (UserCurrentLoc routine) of
            None \<Rightarrow> Url (Info e) = fmt_d (target_ID t) @ '':''
          | Some name \<Rightarrow>
              is_last_dot_segment (last (Split name CHR ''.'')) name
              \<and> Url (Info e) = fmt_d (target_ID t) @ '': '' @ last (Split name CHR ''.''))"
  by (simp add: Attach_def last_Split_segment split: option.split)

theorem attach_title_and_url_witness:
  "\<exists>e. Attach NewProxy \<lparr>target_ID = 7\<rparr> worker_routine = [Fire (AttachedToTarget e)]
       \<and> TargetId (Info e) = fmt_d 7
       \<and> Title (Info e) = ''tt''
       \<and> is_last_dot_segment (last (Split ''main.worker'' CHR ''.'')) ''main.worker''
       \<and> Url (Info e) = fmt_d 7 @ '': '' @ last (Split ''main.worker'' CHR ''.'')"
  using attach_title_and_url [of NewProxy "\<lparr>target_ID = 7\<rparr>" worker_routine]
  by (simp add: NewProxy_def worker_routine_def)

text \<open>
  Claim C9 as stated fails: for a routine whose current function is \<^verbatim>\<open>main.worker\<close> the
  title of the event is \<^verbatim>\<open>tt\<close>; the short name \<^verbatim>\<open>worker\<close> is in the Url.
\<close>

theorem attach_title_counterexample:
  "Attach NewProxy \<lparr>target_ID = 7\<rparr> worker_routine =
     [Fire (AttachedToTarget
        \<lparr>Info = \<lparr>TargetId = ''7'', target_Type = ''node'', Title = ''tt'', Url = ''7: worker''\<rparr>,
         WaitingForDebugger = False\<rparr>)]"
  by code_simp

section \<open>Evaluation\<close>

text \<open>
  Claim C5 (evaluator failure becomes data). When \<^verbatim>\<open>evaluateOnGoroutineAndRespond\<close> has
  called \<^verbatim>\<open>EvalVariable\<close> and the call fails, the handler returns and its one response is a
  success response with ExceptionDetails of id 1, the error's text, line and column -1, and
  no Result; when the call succeeds, the one response carries the Runtime collaborator's
  RemoteObject as Result.
\<close>

theorem evaluator_failure_is_data:
  assumes "evaluateOnGoroutineAndRespond c MakeRemoteObject command p = (oc, p', t)"
    and "Call (EvalVariable scope expr cfg) \<in> set t"
  shows "(\<forall>err. EvalVariable_result c scope expr cfg = Inl err \<longrightarrow>
            oc = Returned
            \<and> replies_of t =
                [RespondEvaluateOnCallFrame
                   \<lparr>Result = None,
                    exceptionDetails = Some
                      \<lparr>ExceptionId = 1, Text = err,
                       exception_LineNumber = - 1, ColumnNumber = - 1\<rparr>\<rparr>])
       \<and> (\<forall>variable. EvalVariable_result c scope expr cfg = Inr variable \<longrightarrow>
            oc = Returned
            \<and> replies_of t =
                [RespondEvaluateOnCallFrame
                   \<lparr>Result = Some (MakeRemoteObject variable), exceptionDetails = None\<rparr>])"
  using assms
  by (auto simp: evaluateOnGoroutineAndRespond_def Let_def
        split: option.splits sum.splits if_splits)

lemma Atoi_0: "Atoi ''0'' = Some 0"
  by code_simp

theorem evaluator_failure_is_data_witness:
  "replies_of (snd (snd (evaluateOnGoroutineAndRespond failing_eval_client unit_object
                           scenario_eval_command NewProxy)))
     = [RespondEvaluateOnCallFrame
          \<lparr>Result = None,
           exceptionDetails = Some
             \<lparr>ExceptionId = 1, Text = ''undefined symbol'',
              exception_LineNumber = - 1, ColumnNumber = - 1\<rparr>\<rparr>]
   \<and> replies_of (snd (snd (evaluateOnGoroutineAndRespond quiet_client unit_object
                           scenario_eval_command NewProxy)))
     = [RespondEvaluateOnCallFrame
          \<lparr>Result = Some (unit_object ()), exceptionDetails = None\<rparr>]"
proof -
  let ?scope = "\<lparr>GoroutineID = 0, Frame = 0\<rparr>"
  let ?call = "Call (EvalVariable ?scope ''oops'' evalConfig)"
  obtain oc1 p1 t1 where r1:
    "evaluateOnGoroutineAndRespond failing_eval_client unit_object scenario_eval_command NewProxy
       = (oc1, p1, t1)"
    by (cases "evaluateOnGoroutineAndRespond failing_eval_client unit_object
                 scenario_eval_command NewProxy") 
  have c1: "?call \<in> set t1"
    using r1 by (auto simp: evaluateOnGoroutineAndRespond_def scenario_eval_command_def Atoi_0
          NewProxy_def failing_eval_client_def quiet_client_def)
  have e1: "EvalVariable_result failing_eval_client ?scope ''oops'' evalConfig
              = Inl ''undefined symbol''"
    by (simp add: failing_eval_client_def quiet_client_def)
  obtain oc2 p2 t2 where r2:
    "evaluateOnGoroutineAndRespond quiet_client unit_object scenario_eval_command NewProxy
       = (oc2, p2, t2)"
    by (cases "evaluateOnGoroutineAndRespond quiet_client unit_object
                 scenario_eval_command NewProxy") 
  have c2: "?call \<in> set t2"
    using r2 by (auto simp: evaluateOnGoroutineAndRespond_def scenario_eval_command_def Atoi_0
          NewProxy_def quiet_client_def)
  have e2: "EvalVariable_result quiet_client ?scope ''oops'' evalConfig = Inr ()"
    by (simp add: quiet_client_def)
  from evaluator_failure_is_data [OF r1 c1] e1 evaluator_failure_is_data [OF r2 c2] e2
  show ?thesis
    unfolding r1 r2 by simp
qed

section \<open>The breakpoint set\<close>

lemma accepted_scenario: "accepted scenario_command ''/a/b.src''"
  by (simp add: accepted_def scenario_command_def)

lemma line_scenario: "cmd_LineNumber scenario_command = 10"
  by (simp add: scenario_command_def)

text \<open>
  Claim C6 (breakpoint-set atomicity). For a command that passes the parameter checks and
  whose fingerprint is not yet recorded, \<^verbatim>\<open>CreateBreakpointAtLine\<close> is called once. When it
  fails the handler reports InternalError with the error's text and the proxy, its
  breakpoint set included, is as before: the fingerprint is not a member. When it succeeds
  the fingerprint is recorded and the response carries it with the location
  \<open>buildLocation url line\<close>.
\<close>

theorem breakpoint_set_atomicity:
  assumes "accepted command url"
    and "setBreakpointAndRespond c command p = (oc, p', t)"
    and "key = breakpointKey url (cmd_LineNumber command)"
    and "key \<notin> breakpoints p"
  shows "(\<forall>err. CreateBreakpointAtLine_result c url (cmd_LineNumber command + 1) key = Some err
            \<longrightarrow> oc = Returned
              \<and> replies_of t = [RespondWithError ErrorCodeInternalError err]
              \<and> p' = p \<and> key \<notin> breakpoints p')
       \<and> (CreateBreakpointAtLine_result c url (cmd_LineNumber command + 1) key = None
            \<longrightarrow> oc = Returned
              \<and> replies_of t =
                  [RespondSetBreakpointByUrl
                     \<lparr>BreakpointId = key,
                      Locations = [buildLocation url (cmd_LineNumber command)]\<rparr>]
              \<and> p' = p\<lparr>breakpoints := insert key (breakpoints p)\<rparr>
              \<and> key \<in> breakpoints p')
       \<and> calls_of t = [CreateBreakpointAtLine url (cmd_LineNumber command + 1) key]"
  using assms(2-4) unfolding setBreakpoint_accepted [OF assms(1)]
  by (auto simp: Let_def split: option.splits)

theorem breakpoint_set_atomicity_witness:
  "replies_of (snd (snd (setBreakpointAndRespond failing_create_client scenario_command NewProxy)))
     = [RespondWithError ErrorCodeInternalError ''no such file'']
   \<and> fst (snd (setBreakpointAndRespond failing_create_client scenario_command NewProxy)) = NewProxy
   \<and> breakpointKey ''/a/b.src'' 10 \<notin> breakpoints NewProxy
   \<and> replies_of (snd (snd (setBreakpointAndRespond quiet_client scenario_command NewProxy)))
     = [RespondSetBreakpointByUrl
          \<lparr>BreakpointId = breakpointKey ''/a/b.src'' 10,
           Locations = [buildLocation ''/a/b.src'' 10]\<rparr>]
   \<and> breakpointKey ''/a/b.src'' 10
       \<in> breakpoints (fst (snd (setBreakpointAndRespond quiet_client scenario_command NewProxy)))"
proof -
  let ?key = "breakpointKey ''/a/b.src'' 10"
  obtain oc1 p1 t1 where r1:
    "setBreakpointAndRespond failing_create_client scenario_command NewProxy = (oc1, p1, t1)"
    by (cases "setBreakpointAndRespond failing_create_client scenario_command NewProxy")
  obtain oc2 p2 t2 where r2:
    "setBreakpointAndRespond quiet_client scenario_command NewProxy = (oc2, p2, t2)"
    by (cases "setBreakpointAndRespond quiet_client scenario_command NewProxy")
  have k: "?key = breakpointKey ''/a/b.src'' (cmd_LineNumber scenario_command)"
    by (simp add: line_scenario)
  have f: "?key \<notin> breakpoints NewProxy"
    by (simp add: NewProxy_def)
  have e1: "CreateBreakpointAtLine_result failing_create_client ''/a/b.src''
              (cmd_LineNumber scenario_command + 1) ?key = Some ''no such file''"
    by (simp add: failing_create_client_def quiet_client_def)
  have e2: "CreateBreakpointAtLine_result quiet_client ''/a/b.src''
              (cmd_LineNumber scenario_command + 1) ?key = None"
    by (simp add: quiet_client_def)
  from breakpoint_set_atomicity [OF accepted_scenario r1 k f] e1
       breakpoint_set_atomicity [OF accepted_scenario r2 k f] e2 f
  show ?thesis
    unfolding r1 r2 line_scenario by simp
qed

text \<open>
  Claim C2 as stated fails: when the debugger client refuses to create the breakpoint, two
  invocations with the same url and line give two InternalError responses and two calls of
  \<^verbatim>\<open>CreateBreakpointAtLine\<close>; and when the fingerprint is already recorded, two
  invocations make no call at all.
\<close>

theorem breakpoint_idempotence_counterexample:
  "replies_of (snd (snd (setBreakpointTwice failing_create_client failing_create_client
                           scenario_command scenario_command NewProxy)))
     = [RespondWithError ErrorCodeInternalError ''no such file'',
        RespondWithError ErrorCodeInternalError ''no such file'']
   \<and> calls_of (snd (snd (setBreakpointTwice failing_create_client failing_create_client
                           scenario_command scenario_command NewProxy)))
     = [CreateBreakpointAtLine ''/a/b.src'' 11 (breakpointKey ''/a/b.src'' 10),
        CreateBreakpointAtLine ''/a/b.src'' 11 (breakpointKey ''/a/b.src'' 10)]
   \<and> calls_of (snd (snd (setBreakpointTwice quiet_client quiet_client
                           scenario_command scenario_command registered_proxy)))
     = []"
proof -
  have "setBreakpointAndRespond failing_create_client scenario_command NewProxy =
          (Returned, NewProxy,
           [Lock breakpointsMux,
            Call (CreateBreakpointAtLine ''/a/b.src'' 11 (breakpointKey ''/a/b.src'' 10)),
            Reply (RespondWithError ErrorCodeInternalError ''no such file''),
            Unlock breakpointsMux])"
    unfolding setBreakpoint_accepted [OF accepted_scenario]
    by (simp add: line_scenario Let_def failing_create_client_def quiet_client_def NewProxy_def)
  moreover have "setBreakpointAndRespond quiet_client scenario_command registered_proxy =
          (Returned, registered_proxy,
           [Lock breakpointsMux,
            Reply (RespondSetBreakpointByUrl
              \<lparr>BreakpointId = breakpointKey ''/a/b.src'' 10,
               Locations = [buildLocation ''/a/b.src'' 10]\<rparr>),
            Unlock breakpointsMux])"
    unfolding setBreakpoint_accepted [OF accepted_scenario]
    by (simp add: line_scenario Let_def registered_proxy_def NewProxy_def)
  ultimately show ?thesis
    by (simp add: setBreakpointTwice_def)
qed

text \<open>
  Claim C2 (breakpoint idempotence), as amended. When the fingerprint is not yet recorded
  and the first call of \<^verbatim>\<open>CreateBreakpointAtLine\<close> succeeds, two invocations with the same
  url and line give two success responses with the same BreakpointId and the same single
  location, and \<^verbatim>\<open>CreateBreakpointAtLine\<close> is called exactly once over both.
\<close>

theorem breakpoint_idempotence_amended:
  assumes "accepted command1 url" and "accepted command2 url"
    and "cmd_LineNumber command1 = line" and "cmd_LineNumber command2 = line"
    and "key = breakpointKey url line"
    and "key \<notin> breakpoints p"
    and "CreateBreakpointAtLine_result c1 url (line + 1) key = None"
    and "setBreakpointTwice c1 c2 command1 command2 p = (oc, p', t)"
  shows "oc = Returned
       \<and> replies_of t =
           [RespondSetBreakpointByUrl \<lparr>BreakpointId = key, Locations = [buildLocation url line]\<rparr>,
            RespondSetBreakpointByUrl \<lparr>BreakpointId = key, Locations = [buildLocation url line]\<rparr>]
       \<and> calls_of t = [CreateBreakpointAtLine url (line + 1) key]
       \<and> p' = p\<lparr>breakpoints := insert key (breakpoints p)\<rparr>"
proof -
  let ?p1 = "p\<lparr>breakpoints := insert key (breakpoints p)\<rparr>"
  let ?ok = "Reply (RespondSetBreakpointByUrl
               \<lparr>BreakpointId = key, Locations = [buildLocation url line]\<rparr>)"
  have first: "setBreakpointAndRespond c1 command1 p =
      (Returned, ?p1,
       [Lock breakpointsMux, Call (CreateBreakpointAtLine url (line + 1) key), ?ok,
        Unlock breakpointsMux])"
    unfolding setBreakpoint_accepted [OF assms(1)]
    using assms(3,5,6,7) by (simp add: Let_def)
  have second: "setBreakpointAndRespond c2 command2 ?p1 =
      (Returned, ?p1, [Lock breakpointsMux, ?ok, Unlock breakpointsMux])"
    unfolding setBreakpoint_accepted [OF assms(2)]
    using assms(4,5) by (simp add: Let_def)
  from assms(8) show ?thesis
    unfolding setBreakpointTwice_def first by (auto simp: second)
qed

theorem breakpoint_idempotence_amended_witness:
  "replies_of (snd (snd (setBreakpointTwice quiet_client failing_create_client
                           scenario_command scenario_command NewProxy)))
     = [RespondSetBreakpointByUrl
          \<lparr>BreakpointId = breakpointKey ''/a/b.src'' 10,
           Locations = [buildLocation ''/a/b.src'' 10]\<rparr>,
        RespondSetBreakpointByUrl
          \<lparr>BreakpointId = breakpointKey ''/a/b.src'' 10,
           Locations = [buildLocation ''/a/b.src'' 10]\<rparr>]
   \<and> calls_of (snd (snd (setBreakpointTwice quiet_client failing_create_client
                           scenario_command scenario_command NewProxy)))
     = [CreateBreakpointAtLine ''/a/b.src'' 11 (breakpointKey ''/a/b.src'' 10)]"
proof -
  let ?key = "breakpointKey ''/a/b.src'' 10"
  obtain oc p' t where r:
    "setBreakpointTwice quiet_client failing_create_client scenario_command scenario_command
       NewProxy = (oc, p', t)"
    by (cases "setBreakpointTwice quiet_client failing_create_client scenario_command
                 scenario_command NewProxy")
  have f: "?key \<notin> breakpoints NewProxy"
    by (simp add: NewProxy_def)
  have e: "CreateBreakpointAtLine_result quiet_client ''/a/b.src'' (10 + 1) ?key = None"
    by (simp add: quiet_client_def)
  from breakpoint_idempotence_amended
         [OF accepted_scenario accepted_scenario line_scenario line_scenario refl f e r]
  show ?thesis
    unfolding r by simp
qed

section \<open>Failures of the debugger client\<close>

lemma selectDestination_trace:
  "selectDestination dest p = (Returned, p1, t0) \<Longrightarrow> t0 = []"
  by (auto simp: selectDestination_def split: if_splits option.splits)

lemma switchGoroutine_fails:
  "SwitchGoroutine_result c (activeGoroutineID p) = Some err \<Longrightarrow>
   switchGoroutine c p =
     (Panicked (ErrorValue err), p,
      [Call (SwitchGoroutine (activeGoroutineID p)),
       Reply (RespondWithError ErrorCodeInternalError err)])"
  by (simp add: switchGoroutine_def)

lemma switchGoroutine_succeeds:
  "SwitchGoroutine_result c (activeGoroutineID p) = None \<Longrightarrow>
   switchGoroutine c p = (Returned, p, [Call (SwitchGoroutine (activeGoroutineID p))])"
  by (simp add: switchGoroutine_def)

lemma sendResumeState_run:
  "sendResumeState c p = (Returned, p, snd (snd (sendResumeState c p)))"
  by (simp add: sendResumeState_def)

lemma step_switch_fails:
  assumes "selectDestination (DestinationTargetID command) p = (Returned, p1, t0)"
    and "SwitchGoroutine_result c (activeGoroutineID p1) = Some err"
  shows "stepAndRespond primitive primitive_result c command p =
     (Panicked (ErrorValue err), p1,
      [Call (SwitchGoroutine (activeGoroutineID p1)),
       Reply (RespondWithError ErrorCodeInternalError err)])"
  using selectDestination_trace [OF assms(1)] assms
  by (simp add: stepAndRespond_def switchGoroutine_fails)

lemma step_primitive_fails:
  assumes "selectDestination (DestinationTargetID command) p = (Returned, p1, t0)"
    and "SwitchGoroutine_result c (activeGoroutineID p1) = None"
  shows "stepAndRespond primitive (Some err) c command p =
     (Panicked (ErrorValue err), p1,
      Call (SwitchGoroutine (activeGoroutineID p1)) # snd (snd (sendResumeState c p1))
      @ [Call primitive, Reply (RespondWithError ErrorCodeInternalError err)])"
  using selectDestination_trace [OF assms(1)] assms
  by (simp add: stepAndRespond_def switchGoroutine_succeeds)
     (subst sendResumeState_run, simp)

lemma continue_switch_fails:
  assumes "selectDestination (DestinationTargetID command) p = (Returned, p1, t0)"
    and "SwitchGoroutine_result c (activeGoroutineID p1) = Some err"
  shows "continueAndRespond c command p =
     (Panicked (ErrorValue err), p1,
      [Call (SwitchGoroutine (activeGoroutineID p1)),
       Reply (RespondWithError ErrorCodeInternalError err)])"
  using selectDestination_trace [OF assms(1)] assms
  by (simp add: continueAndRespond_def switchGoroutine_fails)

text \<open>
  Claim C4 (recoverable internal errors), as amended. In the step and resume handlers a
  failure of \<^verbatim>\<open>SwitchGoroutine\<close>, \<^verbatim>\<open>Next\<close>, \<^verbatim>\<open>Step\<close> or \<^verbatim>\<open>StepOut\<close> is answered with
  an InternalError response carrying the error's text, after which the handler panics with
  the error. In the breakpoint handlers a failure of \<^verbatim>\<open>CreateBreakpointAtLine\<close> or
  \<^verbatim>\<open>ClearBreakpointByName\<close> is answered with an InternalError response carrying the
  error's text, and the handler returns.
\<close>

theorem client_failure_disposition:
  assumes "selectDestination (DestinationTargetID command) p = (Returned, p1, t0)"
  shows
    "(SwitchGoroutine_result c (activeGoroutineID p1) = Some err \<longrightarrow>
        (let failed = (Panicked (ErrorValue err), p1,
                       [Call (SwitchGoroutine (activeGoroutineID p1)),
                        Reply (RespondWithError ErrorCodeInternalError err)])
         in stepOverAndRespond c command p = failed
          \<and> stepIntoAndRespond c command p = failed
          \<and> stepOutAndRespond c command p = failed
          \<and> continueAndRespond c command p = failed))
   \<and> (SwitchGoroutine_result c (activeGoroutineID p1) = None \<longrightarrow>
        (let before = Call (SwitchGoroutine (activeGoroutineID p1))
                       # snd (snd (sendResumeState c p1))
         in (Next_result c = Some err \<longrightarrow>
               stepOverAndRespond c command p =
                 (Panicked (ErrorValue err), p1,
                  before @ [Call Next, Reply (RespondWithError ErrorCodeInternalError err)]))
          \<and> (Step_result c = Some err \<longrightarrow>
               stepIntoAndRespond c command p =
                 (Panicked (ErrorValue err), p1,
                  before @ [Call Step, Reply (RespondWithError ErrorCodeInternalError err)]))
          \<and> (StepOut_result c = Some err \<longrightarrow>
               stepOutAndRespond c command p =
                 (Panicked (ErrorValue err), p1,
                  before @ [Call StepOut, Reply (RespondWithError ErrorCodeInternalError err)]))))
   \<and> (accepted set_command url
        \<and> breakpointKey url (cmd_LineNumber set_command) \<notin> breakpoints p
        \<and> CreateBreakpointAtLine_result c url (cmd_LineNumber set_command + 1)
              (breakpointKey url (cmd_LineNumber set_command)) = Some err \<longrightarrow>
        setBreakpointAndRespond c set_command p =
          (Returned, p,
           [Lock breakpointsMux,
            Call (CreateBreakpointAtLine url (cmd_LineNumber set_command + 1)
                    (breakpointKey url (cmd_LineNumber set_command))),
            Reply (RespondWithError ErrorCodeInternalError err),
            Unlock breakpointsMux]))
   \<and> (ClearBreakpointByName_result c (cmd_BreakpointId remove_command) = Some err \<longrightarrow>
        removeBreakpointAndRespond c remove_command p =
          (Returned, p\<lparr>breakpoints := breakpoints p - {cmd_BreakpointId remove_command}\<rparr>,
           [Lock breakpointsMux, Unlock breakpointsMux,
            Call (ClearBreakpointByName (cmd_BreakpointId remove_command)),
            Reply (RespondWithError ErrorCodeInternalError err)]))"
proof (intro conjI impI)
  assume f: "SwitchGoroutine_result c (activeGoroutineID p1) = Some err"
  show "let failed = (Panicked (ErrorValue err), p1,
                       [Call (SwitchGoroutine (activeGoroutineID p1)),
                        Reply (RespondWithError ErrorCodeInternalError err)])
         in stepOverAndRespond c command p = failed
          \<and> stepIntoAndRespond c command p = failed
          \<and> stepOutAndRespond c command p = failed
          \<and> continueAndRespond c command p = failed"
    by (simp add: stepOverAndRespond_def stepIntoAndRespond_def stepOutAndRespond_def
          step_switch_fails [OF assms f] continue_switch_fails [OF assms f])
next
  assume s: "SwitchGoroutine_result c (activeGoroutineID p1) = None"
  show "let before = Call (SwitchGoroutine (activeGoroutineID p1))
                       # snd (snd (sendResumeState c p1))
         in (Next_result c = Some err \<longrightarrow>
               stepOverAndRespond c command p =
                 (Panicked (ErrorValue err), p1,
                  before @ [Call Next, Reply (RespondWithError ErrorCodeInternalError err)]))
          \<and> (Step_result c = Some err \<longrightarrow>
               stepIntoAndRespond c command p =
                 (Panicked (ErrorValue err), p1,
                  before @ [Call Step, Reply (RespondWithError ErrorCodeInternalError err)]))
          \<and> (StepOut_result c = Some err \<longrightarrow>
               stepOutAndRespond c command p =
                 (Panicked (ErrorValue err), p1,
                  before @ [Call StepOut, Reply (RespondWithError ErrorCodeInternalError err)]))"
    by (simp add: stepOverAndRespond_def stepIntoAndRespond_def stepOutAndRespond_def
          step_primitive_fails [OF assms s])
next
  assume a: "accepted set_command url
        \<and> breakpointKey url (cmd_LineNumber set_command) \<notin> breakpoints p
        \<and> CreateBreakpointAtLine_result c url (cmd_LineNumber set_command + 1)
              (breakpointKey url (cmd_LineNumber set_command)) = Some err"
  then have acc: "accepted set_command url" by simp
  from a show "setBreakpointAndRespond c set_command p =
          (Returned, p,
           [Lock breakpointsMux,
            Call (CreateBreakpointAtLine url (cmd_LineNumber set_command + 1)
                    (breakpointKey url (cmd_LineNumber set_command))),
            Reply (RespondWithError ErrorCodeInternalError err),
            Unlock breakpointsMux])"
    unfolding setBreakpoint_accepted [OF acc] by (simp add: Let_def)
next
  assume "ClearBreakpointByName_result c (cmd_BreakpointId remove_command) = Some err"
  then show "removeBreakpointAndRespond c remove_command p =
          (Returned, p\<lparr>breakpoints := breakpoints p - {cmd_BreakpointId remove_command}\<rparr>,
           [Lock breakpointsMux, Unlock breakpointsMux,
            Call (ClearBreakpointByName (cmd_BreakpointId remove_command)),
            Reply (RespondWithError ErrorCodeInternalError err)])"
    by (simp add: removeBreakpointAndRespond_def Let_def)
qed

text \<open>
  Claim C4 as stated fails: when \<^verbatim>\<open>SwitchGoroutine\<close> fails in \<^verbatim>\<open>stepOverAndRespond\<close>, the
  handler responds with InternalError and then panics.
\<close>

theorem recoverable_errors_counterexample:
  "stepOverAndRespond failing_switch_client resume_command NewProxy =
     (Panicked (ErrorValue ''unknown goroutine''), NewProxy,
      [Call (SwitchGoroutine 0),
       Reply (RespondWithError ErrorCodeInternalError ''unknown goroutine'')])"
  by (simp add: stepOverAndRespond_def stepAndRespond_def selectDestination_def
        resume_command_def switchGoroutine_def failing_switch_client_def quiet_client_def
        NewProxy_def)

theorem client_failure_disposition_witness:
  "stepOverAndRespond failing_switch_client resume_command NewProxy =
     (Panicked (ErrorValue ''unknown goroutine''), NewProxy,
      [Call (SwitchGoroutine 0),
       Reply (RespondWithError ErrorCodeInternalError ''unknown goroutine'')])
   \<and> continueAndRespond failing_switch_client resume_command NewProxy =
     (Panicked (ErrorValue ''unknown goroutine''), NewProxy,
      [Call (SwitchGoroutine 0),
       Reply (RespondWithError ErrorCodeInternalError ''unknown goroutine'')])
   \<and> stepIntoAndRespond failing_step_client resume_command NewProxy =
     (Panicked (ErrorValue ''process exited''), NewProxy,
      [Call (SwitchGoroutine 0), RLock activeTargetsMux, Fire Resumed,
       RUnlock activeTargetsMux, Call Step,
       Reply (RespondWithError ErrorCodeInternalError ''process exited'')])
   \<and> setBreakpointAndRespond failing_step_client scenario_command NewProxy =
     (Returned, NewProxy,
      [Lock breakpointsMux,
       Call (CreateBreakpointAtLine ''/a/b.src'' 11 (breakpointKey ''/a/b.src'' 10)),
       Reply (RespondWithError ErrorCodeInternalError ''process exited''),
       Unlock breakpointsMux])
   \<and> removeBreakpointAndRespond failing_step_client scenario_remove_command NewProxy =
     (Returned, NewProxy,
      [Lock breakpointsMux, Unlock breakpointsMux, Call (ClearBreakpointByName ''a0''),
       Reply (RespondWithError ErrorCodeInternalError ''process exited'')])"
proof -
  have sel: "selectDestination (DestinationTargetID resume_command) NewProxy
               = (Returned, NewProxy, [])"
    by (simp add: selectDestination_def resume_command_def)
  have a: "activeGoroutineID NewProxy = 0" "breakpoints NewProxy = {}"
    by (simp_all add: NewProxy_def)
  have sw: "SwitchGoroutine_result failing_switch_client 0 = Some ''unknown goroutine''"
    by (simp add: failing_switch_client_def quiet_client_def)
  have st: "SwitchGoroutine_result failing_step_client 0 = None"
    "Step_result failing_step_client = Some ''process exited''"
    "CreateBreakpointAtLine_result failing_step_client ''/a/b.src'' (10 + 1)
       (breakpointKey ''/a/b.src'' 10) = Some ''process exited''"
    "ClearBreakpointByName_result failing_step_client ''a0'' = Some ''process exited''"
    by (simp_all add: failing_step_client_def quiet_client_def)
  have rs: "snd (snd (sendResumeState failing_step_client NewProxy))
              = [RLock activeTargetsMux, Fire Resumed, RUnlock activeTargetsMux]"
    by (simp add: sendResumeState_def NewProxy_def)
  have rm: "cmd_BreakpointId scenario_remove_command = ''a0''"
    by (simp add: scenario_remove_command_def)
  have np: "NewProxy\<lparr>breakpoints := {}\<rparr> = NewProxy"
    by (simp add: NewProxy_def)
  note first = client_failure_disposition
    [OF sel, where c = failing_switch_client and err = "''unknown goroutine''"]
  note second = client_failure_disposition
    [OF sel, where c = failing_step_client and err = "''process exited''"
       and set_command = scenario_command and url = "''/a/b.src''"
       and remove_command = scenario_remove_command]
  from first sw show ?thesis
    using second st accepted_scenario
    by (simp add: a rs rm np line_scenario Let_def)
qed

section \<open>Routine sync\<close>

lemma sync_attach_active:
  "sync_attach routines found p t = (found', p', t') \<Longrightarrow>
   activeGoroutineID p' = activeGoroutineID p"
  by (induction routines found p t rule: sync_attach.induct)
     (auto simp: Let_def split: option.splits)

lemma sync_destroy_active:
  "sync_destroy entries found p t = (p', t') \<Longrightarrow>
   activeGoroutineID p' = activeGoroutineID p"
  by (induction entries found p t rule: sync_destroy.induct)
     (auto split: if_splits)

lemma sync_pick_targets [simp]: "activeTargets (sync_pick c p) = activeTargets p"
  by (simp add: sync_pick_def split: option.split list.split)

lemma sync_pick_key:
  assumes "activeTargets p \<noteq> []"
  shows "map_of (activeTargets p) (activeGoroutineID (sync_pick c p)) \<noteq> None"
proof (cases "map_of (activeTargets p) (activeGoroutineID p)")
  case (Some target)
  then show ?thesis by (simp add: sync_pick_def)
next
  case None
  let ?order = "range_order (pick_order c) (activeTargets p)"
  from assms have "length ?order \<noteq> 0" by simp
  then obtain index target rest where o: "?order = (index, target) # rest"
    by (cases ?order) auto
  then have "(index, target) \<in> set ?order" by simp
  then have "index \<in> fst ` set (activeTargets p)"
    by (auto simp: image_iff intro: bexI [of _ "(index, target)"])
  then have "map_of (activeTargets p) index \<noteq> None"
    by (simp add: map_of_eq_None_iff)
  with None o show ?thesis
    by (simp add: sync_pick_def)
qed

lemma sync_pick_empty:
  "activeTargets p = [] \<Longrightarrow> activeGoroutineID (sync_pick c p) = activeGoroutineID p"
  by (simp add: sync_pick_def)

text \<open>
  Claim C10 (active routine after a routine sync). A pass of \<^verbatim>\<open>syncGoroutines\<close> in which
  \<^verbatim>\<open>ListGoroutines\<close> succeeds returns; afterwards, if \<^verbatim>\<open>activeTargets\<close> is not empty then
  \<^verbatim>\<open>activeGoroutineID\<close> is one of its keys, and if it is empty then \<^verbatim>\<open>activeGoroutineID\<close>
  is what it was before the pass.
\<close>

theorem sync_active_routine:
  assumes "ListGoroutines_result c = Inr routines"
  shows "\<exists>p' t. syncGoroutines c p = (Returned, p', t)
           \<and> (activeTargets p' \<noteq> [] \<longrightarrow>
                map_of (activeTargets p') (activeGoroutineID p') \<noteq> None)
           \<and> (activeTargets p' = [] \<longrightarrow> activeGoroutineID p' = activeGoroutineID p)"
proof -
  obtain found p1 t1 where a: "sync_attach routines {} p [] = (found, p1, t1)"
    by (cases "sync_attach routines {} p []")
  obtain p2 t2 where d:
    "sync_destroy (range_order (destroy_order c) (activeTargets p1)) found p1 t1 = (p2, t2)"
    by (cases "sync_destroy (range_order (destroy_order c) (activeTargets p1)) found p1 t1")
  have run: "syncGoroutines c p =
      (Returned, sync_pick c p2,
       [Lock activeTargetsMux, Call ListGoroutines] @ t2 @ [Unlock activeTargetsMux])"
    by (simp add: syncGoroutines_def assms a d)
  have keep: "activeGoroutineID p2 = activeGoroutineID p"
    using sync_attach_active [OF a] sync_destroy_active [OF d] by simp
  show ?thesis
    unfolding run using sync_pick_key [of p2 c] sync_pick_empty [of p2 c] keep
    by simp
qed

theorem sync_active_routine_witness:
  "(\<exists>p' t. syncGoroutines one_routine_client NewProxy = (Returned, p', t)
       \<and> activeTargets p' \<noteq> []
       \<and> map_of (activeTargets p') (activeGoroutineID p') \<noteq> None)
   \<and> (\<exists>p' t. syncGoroutines quiet_client proxy_with_target = (Returned, p', t)
       \<and> activeTargets p' = []
       \<and> activeGoroutineID p' = 7)"
proof -
  have l1: "ListGoroutines_result one_routine_client = Inr [worker_routine]"
    by (simp add: one_routine_client_def quiet_client_def)
  have l2: "ListGoroutines_result quiet_client = Inr []"
    by (simp add: quiet_client_def)
  have t1: "activeTargets (fst (snd (syncGoroutines one_routine_client NewProxy))) \<noteq> []"
    by code_simp
  have t2: "activeTargets (fst (snd (syncGoroutines quiet_client proxy_with_target))) = []"
    by code_simp
  have a: "activeGoroutineID proxy_with_target = 7"
    by (simp add: proxy_with_target_def)
  from sync_active_routine [OF l1, of NewProxy] t1
       sync_active_routine [OF l2, of proxy_with_target] t2 a
  show ?thesis
    by auto
qed

section \<open>The pause snapshot\<close>

lemma Attach_target_events: "list_all is_target_event (Attach p t routine)"
  by (simp add: Attach_def list_all_iff)

lemma sync_attach_trace:
  "sync_attach routines found p t = (found', p', t') \<Longrightarrow>
   \<exists>more. t' = t @ more \<and> list_all is_target_event more"
proof (induction routines found p t rule: sync_attach.induct)
  case (1 foundTargets p t)
  then show ?case by simp
next
  case (2 routine routines foundTargets p t)
  show ?case
  proof (cases "map_of (activeTargets p) (ID routine)")
    case None
    let ?target = "\<lparr>target_ID = ID routine\<rparr>"
    from "2.prems" None have
      "sync_attach routines (insert (ID routine) foundTargets)
         (p\<lparr>activeTargets := activeTargets p @ [(ID routine, ?target)]\<rparr>)
         (t @ Attach p ?target routine) = (found', p', t')"
      by (simp add: Let_def)
    from "2.IH"(1) [OF refl refl None refl this]
    obtain more where "t' = (t @ Attach p ?target routine) @ more"
      "list_all is_target_event more"
      by blast
    then have "t' = t @ (Attach p ?target routine @ more)
        \<and> list_all is_target_event (Attach p ?target routine @ more)"
      by (simp add: Attach_target_events)
    then show ?thesis by blast
  next
    case (Some target)
    with "2.prems" have
      "sync_attach routines (insert (ID routine) foundTargets) p t = (found', p', t')"
      by (simp add: Let_def)
    from "2.IH"(2) [OF refl refl Some this] show ?thesis .
  qed
qed

lemma sync_destroy_trace:
  "sync_destroy entries found p t = (p', t') \<Longrightarrow>
   \<exists>more. t' = t @ more \<and> list_all is_target_event more"
proof (induction entries found p t rule: sync_destroy.induct)
  case (1 foundTargets p t)
  then show ?case by simp
next
  case (2 routineID target rest foundTargets p t)
  show ?case
  proof (cases "routineID \<in> foundTargets")
    case True
    with "2.prems" "2.IH"(1) show ?thesis by simp
  next
    case False
    with "2.prems" have
      "sync_destroy rest foundTargets
         (p\<lparr>activeTargets := filter (\<lambda>(k, v). k \<noteq> routineID) (activeTargets p)\<rparr>)
         (t @ Destroy target) = (p', t')"
      by simp
    from "2.IH"(2) [OF False this]
    obtain more where "t' = (t @ Destroy target) @ more" "list_all is_target_event more"
      by blast
    then have "t' = t @ (Destroy target @ more)
        \<and> list_all is_target_event (Destroy target @ more)"
      by (simp add: Destroy_def)
    then show ?thesis by blast
  qed
qed

lemma syncGoroutines_trace:
  assumes "syncGoroutines c p = (oc, p1, ts)"
  shows "\<exists>mid. ts = Lock activeTargetsMux # Call ListGoroutines # mid @ [Unlock activeTargetsMux]
           \<and> list_all is_target_event mid"
proof (cases "ListGoroutines_result c")
  case (Inl err)
  with assms have "ts = Lock activeTargetsMux # Call ListGoroutines # [] @ [Unlock activeTargetsMux]"
    by (simp add: syncGoroutines_def)
  then show ?thesis by (intro exI [of _ "[]"]) simp
next
  case (Inr routines)
  obtain found pa t1 where a: "sync_attach routines {} p [] = (found, pa, t1)"
    by (cases "sync_attach routines {} p []")
  obtain p2 t2 where d:
    "sync_destroy (range_order (destroy_order c) (activeTargets pa)) found pa t1 = (p2, t2)"
    by (cases "sync_destroy (range_order (destroy_order c) (activeTargets pa)) found pa t1")
  from sync_attach_trace [OF a] have t1: "list_all is_target_event t1"
    by auto
  from sync_destroy_trace [OF d] t1 have t2: "list_all is_target_event t2"
    by auto
  from assms have "ts = Lock activeTargetsMux # Call ListGoroutines # t2 @ [Unlock activeTargetsMux]"
    by (simp add: syncGoroutines_def Inr a d)
  with t2 show ?thesis by blast
qed

lemma collect_stacks_trace:
  "collect_stacks c active entries activeStack targetsStacks t = (r, t') \<Longrightarrow>
   \<exists>ccs. t' = t @ map Call ccs"
proof (induction c active entries activeStack targetsStacks t rule: collect_stacks.induct)
  case (1 c active activeStack targetsStacks t)
  then have "t' = t @ map Call []" by simp
  then show ?case ..
next
  case (2 c active routineID target rest activeStack targetsStacks t)
  let ?call = "Stacktrace routineID 50 stackConfig"
  show ?case
  proof (cases "Stacktrace_result c routineID 50 stackConfig")
    case (Inl err)
    with "2.prems" have "t' = t @ map Call [?call]"
      by (simp add: Let_def)
    then show ?thesis ..
  next
    case (Inr stacks)
    have "\<exists>ccs. t' = (t @ [Call ?call]) @ map Call ccs"
    proof (cases "routineID = active")
      case True
      with "2.prems" Inr have
        "collect_stacks c active rest (Some stacks) targetsStacks (t @ [Call ?call]) = (r, t')"
        by (simp add: Let_def)
      from "2.IH"(1) [OF refl Inr True this] show ?thesis .
    next
      case False
      with "2.prems" Inr have
        "collect_stacks c active rest activeStack (targetsStacks @ [(target, stacks)])
           (t @ [Call ?call]) = (r, t')"
        by (simp add: Let_def)
      from "2.IH"(2) [OF refl Inr False this] show ?thesis .
    qed
    then obtain ccs where "t' = t @ map Call (?call # ccs)"
      by auto
    then show ?thesis ..
  qed
qed

lemma collect_stacks_stacks:
  assumes "collect_stacks c active entries activeStack targetsStacks t
             = (Inr (activeStack', targetsStacks'), t')"
    and "\<And>stack. activeStack = Some stack \<Longrightarrow>
           \<exists>routineID. Stacktrace_result c routineID 50 stackConfig = Inr stack"
    and "\<And>target stack. (target, stack) \<in> set targetsStacks \<Longrightarrow>
           \<exists>routineID. Stacktrace_result c routineID 50 stackConfig = Inr stack"
  shows "(\<forall>stack. activeStack' = Some stack \<longrightarrow>
           (\<exists>routineID. Stacktrace_result c routineID 50 stackConfig = Inr stack))
       \<and> (\<forall>target stack. (target, stack) \<in> set targetsStacks' \<longrightarrow>
           (\<exists>routineID. Stacktrace_result c routineID 50 stackConfig = Inr stack))"
  using assms
proof (induction c active entries activeStack targetsStacks t rule: collect_stacks.induct)
  case (1 c active activeStack targetsStacks t)
  then show ?case by auto
next
  case (2 c active routineID target rest activeStack targetsStacks t)
  let ?call = "Stacktrace routineID 50 stackConfig"
  from "2.prems"(1) obtain stacks where
    Inr: "Stacktrace_result c routineID 50 stackConfig = Inr stacks"
    by (cases "Stacktrace_result c routineID 50 stackConfig") (simp_all add: Let_def)
  show ?case
  proof (cases "routineID = active")
    case True
    with "2.prems"(1) Inr have run:
      "collect_stacks c active rest (Some stacks) targetsStacks (t @ [Call ?call])
         = (Inr (activeStack', targetsStacks'), t')"
      by (simp add: Let_def)
    show ?thesis
      by (rule "2.IH"(1) [OF refl Inr True run]) (use Inr "2.prems"(3) in auto)
  next
    case False
    with "2.prems"(1) Inr have run:
      "collect_stacks c active rest activeStack (targetsStacks @ [(target, stacks)])
         (t @ [Call ?call]) = (Inr (activeStack', targetsStacks'), t')"
      by (simp add: Let_def)
    show ?thesis
      by (rule "2.IH"(2) [OF refl Inr False run]) (use Inr "2.prems"(2,3) in auto)
  qed
qed

lemma target_event_not_paused: "is_target_event a \<Longrightarrow> paused_event a = None"
  by (cases a rule: is_target_event.cases) simp_all

lemma target_event_not_lock: "is_target_event a \<Longrightarrow> \<not> is_lock_action a"
  by (cases a rule: is_target_event.cases) simp_all

lemma sync_trace_not_paused:
  assumes "syncGoroutines c p = (oc, p1, ts)"
  shows "list_all (\<lambda>a. paused_event a = None) ts"
proof -
  from syncGoroutines_trace [OF assms] obtain mid where
    "ts = Lock activeTargetsMux # Call ListGoroutines # mid @ [Unlock activeTargetsMux]"
    "list_all is_target_event mid"
    by blast
  then show ?thesis
    by (auto simp: list_all_iff target_event_not_paused)
qed

lemma sendPauseState_after_sync:
  assumes "GetState_result c = Inr state" and "syncGoroutines c p = (oc, p1, ts)"
  shows "(oc \<noteq> Returned \<longrightarrow> sendPauseState c p = (oc, p1, Call GetState # ts))
       \<and> (oc = Returned \<and> state = None \<longrightarrow>
            sendPauseState c p =
              (Panicked (Message ''Called sendPauseState() but not paused.''), p1,
               Call GetState # ts))
       \<and> (oc = Returned \<and> state \<noteq> None \<longrightarrow>
            (\<exists>oc' rest. sendPauseState c p = (oc', p1, Call GetState # ts @ rest)))"
proof (cases oc)
  case Returned
  show ?thesis
  proof (cases state)
    case None
    with assms Returned show ?thesis
      by (simp add: sendPauseState_def)
  next
    case (Some s)
    with assms Returned show ?thesis
      by (auto simp: sendPauseState_def split: prod.split sum.split)
  qed
next
  case (Panicked m)
  with assms show ?thesis
    by (simp add: sendPauseState_def)
qed

lemma sendPauseState_shape:
  assumes "sendPauseState c p = (oc, p', t)"
  shows "\<exists>pre activeStack targetsStacks.
           t = pre @ firePauses c activeStack targetsStacks
           \<and> list_all (\<lambda>a. paused_event a = None) pre
           \<and> (\<forall>stack. activeStack = Some stack \<longrightarrow>
                (\<exists>routineID. Stacktrace_result c routineID 50 stackConfig = Inr stack))
           \<and> (\<forall>target stack. (target, stack) \<in> set targetsStacks \<longrightarrow>
                (\<exists>routineID. Stacktrace_result c routineID 50 stackConfig = Inr stack))"
proof -
  have quiet: "list_all (\<lambda>a. paused_event a = None) t \<Longrightarrow> ?thesis"
  proof -
    assume "list_all (\<lambda>a. paused_event a = None) t"
    then have "t = t @ firePauses c None [] \<and> list_all (\<lambda>a. paused_event a = None) t
        \<and> (\<forall>stack. (None :: Stackframe list option) = Some stack \<longrightarrow>
                (\<exists>routineID. Stacktrace_result c routineID 50 stackConfig = Inr stack))
        \<and> (\<forall>target stack. (target, stack) \<in> set ([] :: (Target \<times> Stackframe list) list) \<longrightarrow>
                (\<exists>routineID. Stacktrace_result c routineID 50 stackConfig = Inr stack))"
      by (simp add: firePauses_def)
    then show ?thesis by blast
  qed
  show ?thesis
  proof (cases "GetState_result c")
    case (Inl err)
    with assms have "t = [Call GetState]"
      by (simp add: sendPauseState_def)
    then show ?thesis by (intro quiet) simp
  next
    case (Inr state)
    obtain oc1 p1 ts where sync: "syncGoroutines c p = (oc1, p1, ts)"
      by (cases "syncGoroutines c p")
    note ts = sync_trace_not_paused [OF sync]
    note after_sync = sendPauseState_after_sync [OF Inr sync]
    show ?thesis
    proof (cases "oc1 = Returned \<and> state \<noteq> None")
      case False
      with after_sync assms have "t = Call GetState # ts"
        by auto
      with ts show ?thesis by (intro quiet) simp
    next
      case True
      let ?collect = "collect_stacks c (activeGoroutineID p1)
                        (range_order (stacks_order c) (activeTargets p1)) None []
                        [RLock activeTargetsMux]"
      obtain r tc where coll: "?collect = (r, tc)"
        by (cases ?collect)
      from collect_stacks_trace [OF coll] obtain ccs where
        tc: "tc = [RLock activeTargetsMux] @ map Call ccs"
        by blast
      then have tc_quiet: "list_all (\<lambda>a. paused_event a = None) tc"
        by (simp add: list_all_iff)
      show ?thesis
      proof (cases r)
        case (Inl err)
        with assms Inr sync True coll have "t = Call GetState # ts @ tc"
          by (auto simp: sendPauseState_def)
        with ts tc_quiet show ?thesis by (intro quiet) simp
      next
        case (Inr found)
        obtain activeStack targetsStacks where f: "found = (activeStack, targetsStacks)"
          by (cases found)
        from assms \<open>GetState_result c = Inr state\<close> sync True coll Inr f
        have t: "t = (Call GetState # ts @ tc @ [RUnlock activeTargetsMux])
                     @ firePauses c activeStack targetsStacks"
          by (auto simp: sendPauseState_def)
        have "list_all (\<lambda>a. paused_event a = None)
                (Call GetState # ts @ tc @ [RUnlock activeTargetsMux])"
          using ts tc_quiet by simp
        moreover have "(\<forall>stack. activeStack = Some stack \<longrightarrow>
                (\<exists>routineID. Stacktrace_result c routineID 50 stackConfig = Inr stack))
           \<and> (\<forall>target stack. (target, stack) \<in> set targetsStacks \<longrightarrow>
                (\<exists>routineID. Stacktrace_result c routineID 50 stackConfig = Inr stack))"
          by (rule collect_stacks_stacks [OF coll [unfolded Inr f]]) simp_all
        ultimately show ?thesis
          using t by blast
      qed
    qed
  qed
qed

lemma split_order:
  assumes "t = xs @ ys"
    and "\<forall>a\<in>set xs. \<not> Q a" and "\<forall>a\<in>set ys. \<not> P a"
    and "i < length t" and "j < length t" and "P (t ! i)" and "Q (t ! j)"
  shows "i < j"
proof -
  have "i < length xs"
  proof (rule ccontr)
    assume "\<not> i < length xs"
    with assms(1,4) have "t ! i = ys ! (i - length xs)" "i - length xs < length ys"
      by (simp_all add: nth_append)
    then have "t ! i \<in> set ys" by simp
    with assms(3,6) show False by blast
  qed
  moreover have "length xs \<le> j"
  proof (rule ccontr)
    assume "\<not> length xs \<le> j"
    with assms(1) have "t ! j = xs ! j" "j < length xs"
      by (simp_all add: nth_append)
    then have "t ! j \<in> set xs" by simp
    with assms(2,7) show False by blast
  qed
  ultimately show ?thesis by simp
qed

lemma paused_event_None_iff:
  "paused_event a = None \<longleftrightarrow> \<not> is_default_paused a \<and> \<not> is_target_paused a"
  by (cases a rule: paused_event.cases) simp_all

text \<open>
  Claim C8 (active before others). In the trace of one run of \<^verbatim>\<open>sendPauseState\<close>, a Paused
  event on the default Debugger agent stands before every Paused event on a target.
\<close>

theorem active_before_others:
  assumes "sendPauseState c p = (oc, p', t)"
    and "i < length t" and "j < length t"
    and "is_default_paused (t ! i)" and "is_target_paused (t ! j)"
  shows "i < j"
proof -
  from sendPauseState_shape [OF assms(1)] obtain pre activeStack targetsStacks where
    t: "t = pre @ firePauses c activeStack targetsStacks"
    and pre: "list_all (\<lambda>a. paused_event a = None) pre"
    by blast
  let ?default = "case activeStack of
        None \<Rightarrow> []
      | Some stack \<Rightarrow> [Fire (Paused \<lparr>Reason = ''other'', CallFrames = sendFrames stack\<rparr>)]"
  let ?others = "concat (map (\<lambda>(target, stacks). FirePaused target stacks)
                 (range_order (paused_order c) targetsStacks))"
  have split: "t = (pre @ ?default) @ ?others"
    by (simp add: t firePauses_def)
  have first: "\<forall>a\<in>set (pre @ ?default). \<not> is_target_paused a"
    using pre by (auto simp: list_all_iff paused_event_None_iff split: option.split)
  have rest: "\<forall>a\<in>set ?others. \<not> is_default_paused a"
    by (auto simp: FirePaused_def)
  from split_order [OF split first rest assms(2,3)] assms(4,5)
  show ?thesis by simp
qed

lemma two_routine_trace:
  "snd (snd (sendPauseState two_routine_client NewProxy)) =
     [Call GetState, Lock activeTargetsMux, Call ListGoroutines,
      Fire (AttachedToTarget
        \<lparr>Info = \<lparr>TargetId = ''7'', target_Type = ''node'', Title = ''tt'', Url = ''7: worker''\<rparr>,
         WaitingForDebugger = False\<rparr>),
      Fire (AttachedToTarget
        \<lparr>Info = \<lparr>TargetId = ''8'', target_Type = ''node'', Title = ''tt'', Url = ''8:''\<rparr>,
         WaitingForDebugger = False\<rparr>),
      Unlock activeTargetsMux, RLock activeTargetsMux,
      Call (Stacktrace 7 50 stackConfig), Call (Stacktrace 8 50 stackConfig),
      RUnlock activeTargetsMux,
      Fire (Paused \<lparr>Reason = ''other'', CallFrames = sendFrames scenario_stack\<rparr>),
      Fire (PausedOnTarget ''8'' \<lparr>Reason = ''other'', CallFrames = sendFrames scenario_stack\<rparr>)]"
  by code_simp

theorem active_before_others_witness:
  "10 < length (snd (snd (sendPauseState two_routine_client NewProxy)))
   \<and> 11 < length (snd (snd (sendPauseState two_routine_client NewProxy)))
   \<and> is_default_paused (snd (snd (sendPauseState two_routine_client NewProxy)) ! 10)
   \<and> is_target_paused (snd (snd (sendPauseState two_routine_client NewProxy)) ! 11)
   \<and> (10 :: nat) < 11"
proof -
  obtain oc p' t where r: "sendPauseState two_routine_client NewProxy = (oc, p', t)"
    by (cases "sendPauseState two_routine_client NewProxy")
  have t: "t = snd (snd (sendPauseState two_routine_client NewProxy))"
    by (simp add: r)
  have h: "10 < length t" "11 < length t" "is_default_paused (t ! 10)"
    "is_target_paused (t ! 11)"
    unfolding t two_routine_trace by simp_all
  from active_before_others [OF r h] h show ?thesis
    unfolding t by simp
qed

text \<open>
  Claim C7 (pause-snapshot step order), as amended. \<^verbatim>\<open>sendPauseState\<close> first queries the
  state and panics, before anything else is done, when the query fails. Otherwise it runs
  the routine sync, whose actions stand between taking and releasing the write lock of
  \<^verbatim>\<open>activeTargets\<close>; a panic of the sync is the panic of the snapshot. Only after the sync
  does it check the state, and panics when the state is nil (not paused): the targets that
  the sync created or destroyed stay as the sync left them.
\<close>

theorem pause_snapshot_order:
  assumes "syncGoroutines c p = (oc, p1, ts)"
  shows "(\<forall>err. GetState_result c = Inl err \<longrightarrow>
            sendPauseState c p = (Panicked (ErrorValue err), p, [Call GetState]))
       \<and> (\<forall>state. GetState_result c = Inr state \<longrightarrow>
            (oc \<noteq> Returned \<longrightarrow> sendPauseState c p = (oc, p1, Call GetState # ts))
          \<and> (oc = Returned \<and> state = None \<longrightarrow>
               sendPauseState c p =
                 (Panicked (Message ''Called sendPauseState() but not paused.''), p1,
                  Call GetState # ts))
          \<and> (oc = Returned \<and> state \<noteq> None \<longrightarrow>
               (\<exists>oc' rest. sendPauseState c p = (oc', p1, Call GetState # ts @ rest))))
       \<and> (\<exists>mid. ts = Lock activeTargetsMux # mid @ [Unlock activeTargetsMux]
                \<and> list_all (\<lambda>a. \<not> is_lock_action a) mid)"
proof (intro conjI allI impI)
  fix err assume "GetState_result c = Inl err"
  then show "sendPauseState c p = (Panicked (ErrorValue err), p, [Call GetState])"
    by (simp add: sendPauseState_def)
next
  fix state assume s: "GetState_result c = Inr state"
  note rest = sendPauseState_after_sync [OF s assms]
  { assume "oc \<noteq> Returned"
    with rest show "sendPauseState c p = (oc, p1, Call GetState # ts)" by blast }
  { assume "oc = Returned \<and> state = None"
    with rest show "sendPauseState c p =
        (Panicked (Message ''Called sendPauseState() but not paused.''), p1, Call GetState # ts)"
      by blast }
  { assume "oc = Returned \<and> state \<noteq> None"
    with rest show "\<exists>oc' rest. sendPauseState c p = (oc', p1, Call GetState # ts @ rest)"
      by blast }
next
  from syncGoroutines_trace [OF assms] obtain mid where
    ts: "ts = Lock activeTargetsMux # (Call ListGoroutines # mid) @ [Unlock activeTargetsMux]"
    and mid: "list_all is_target_event mid"
    by auto
  from mid have "list_all (\<lambda>a. \<not> is_lock_action a) (Call ListGoroutines # mid)"
    by (auto simp: list_all_iff target_event_not_lock)
  with ts show "\<exists>mid. ts = Lock activeTargetsMux # mid @ [Unlock activeTargetsMux]
                \<and> list_all (\<lambda>a. \<not> is_lock_action a) mid"
    by blast
qed

text \<open>
  Claim C7 as stated fails: when \<^verbatim>\<open>GetState\<close> answers a nil state and the debugger lists
  one routine, the sync attaches the routine's target before the not-paused panic.
\<close>

theorem pause_snapshot_order_counterexample:
  "sendPauseState not_paused_client NewProxy =
     (Panicked (Message ''Called sendPauseState() but not paused.''), proxy_with_target,
      [Call GetState, Lock activeTargetsMux, Call ListGoroutines,
       Fire (AttachedToTarget
         \<lparr>Info = \<lparr>TargetId = ''7'', target_Type = ''node'', Title = ''tt'', Url = ''7: worker''\<rparr>,
          WaitingForDebugger = False\<rparr>),
       Unlock activeTargetsMux])"
  by code_simp

lemma sync_not_paused_client:
  "syncGoroutines not_paused_client NewProxy =
     (Returned, proxy_with_target,
      [Lock activeTargetsMux, Call ListGoroutines,
       Fire (AttachedToTarget
         \<lparr>Info = \<lparr>TargetId = ''7'', target_Type = ''node'', Title = ''tt'', Url = ''7: worker''\<rparr>,
          WaitingForDebugger = False\<rparr>),
       Unlock activeTargetsMux])"
  by code_simp

lemma sync_failing_state_client:
  "syncGoroutines failing_state_client NewProxy =
     (Returned, NewProxy, [Lock activeTargetsMux, Call ListGoroutines, Unlock activeTargetsMux])"
  by code_simp

theorem pause_snapshot_order_witness:
  "sendPauseState failing_state_client NewProxy =
     (Panicked (ErrorValue ''connection lost''), NewProxy, [Call GetState])
   \<and> fst (snd (sendPauseState not_paused_client NewProxy)) = proxy_with_target
   \<and> snd (snd (sendPauseState not_paused_client NewProxy)) =
       Call GetState # snd (snd (syncGoroutines not_paused_client NewProxy))
   \<and> (\<exists>oc' rest. sendPauseState two_routine_client NewProxy =
         (oc', fst (snd (syncGoroutines two_routine_client NewProxy)),
          Call GetState # snd (snd (syncGoroutines two_routine_client NewProxy)) @ rest))"
proof -
  have g1: "GetState_result failing_state_client = Inl ''connection lost''"
    by (simp add: failing_state_client_def quiet_client_def)
  have g2: "GetState_result not_paused_client = Inr None"
    by (simp add: not_paused_client_def one_routine_client_def quiet_client_def)
  have g3: "GetState_result two_routine_client = Inr (Some \<lparr>SelectedGoroutine = None\<rparr>)"
    by (simp add: two_routine_client_def quiet_client_def)
  obtain p3 t3 where s3: "syncGoroutines two_routine_client NewProxy = (Returned, p3, t3)"
    by (cases "syncGoroutines two_routine_client NewProxy")
       (auto simp: syncGoroutines_def two_routine_client_def quiet_client_def
          split: prod.splits)
  from pause_snapshot_order [OF sync_failing_state_client] g1
       pause_snapshot_order [OF sync_not_paused_client] g2
       pause_snapshot_order [OF s3] g3
  show ?thesis
    by (simp add: sync_not_paused_client s3)
qed

section \<open>Line numbers\<close>

lemma sint_plus_one: "sint (x :: i64) < 2 ^ 63 - 1 \<Longrightarrow> sint (x + 1) = sint x + 1"
proof -
  assume "sint x < 2 ^ 63 - 1"
  moreover have "- (2 ^ 63) \<le> sint x"
    using sint_ge [of x] by simp
  ultimately have "signed_take_bit 63 (sint x + 1) = sint x + 1"
    by (intro signed_take_bit_int_eq_self) simp_all
  then show ?thesis
    by (simp add: sint_word_ariths)
qed

lemma sint_minus_one: "- (2 ^ 63) < sint (x :: i64) \<Longrightarrow> sint (x - 1) = sint x - 1"
proof -
  assume "- (2 ^ 63) < sint x"
  moreover have "sint x < 2 ^ 63"
    using sint_lt [of x] by simp
  ultimately have "signed_take_bit 63 (sint x - 1) = sint x - 1"
    by (intro signed_take_bit_int_eq_self) simp_all
  then show ?thesis
    by (simp add: sint_word_ariths)
qed

lemma length_sendFrames [simp]: "length (sendFrames stack) = length stack"
  by (simp add: sendFrames_def)

lemma sendFrames_nth:
  "i < length stack \<Longrightarrow> sendFrames stack ! i = sendFrame (int i) (stack ! i)"
  by (simp add: sendFrames_def nth_enumerate_eq)

lemma paused_frames_from_stacks:
  assumes "a \<in> set (snd (snd (sendPauseState c p)))" and "paused_event a = Some e"
  shows "\<exists>routineID stack.
           Stacktrace_result c routineID 50 stackConfig = Inr stack
           \<and> CallFrames e = sendFrames stack"
proof -
  obtain oc p' t where r: "sendPauseState c p = (oc, p', t)"
    by (cases "sendPauseState c p")
  from sendPauseState_shape [OF r] obtain pre activeStack targetsStacks where
    t: "t = pre @ firePauses c activeStack targetsStacks"
    and pre: "list_all (\<lambda>a. paused_event a = None) pre"
    and act: "\<And>stack. activeStack = Some stack \<Longrightarrow>
                \<exists>routineID. Stacktrace_result c routineID 50 stackConfig = Inr stack"
    and oth: "\<And>target stack. (target, stack) \<in> set targetsStacks \<Longrightarrow>
                \<exists>routineID. Stacktrace_result c routineID 50 stackConfig = Inr stack"
    by blast
  from assms(1) r t have "a \<in> set pre \<or> a \<in> set (firePauses c activeStack targetsStacks)"
    by auto
  with pre assms(2) have "a \<in> set (firePauses c activeStack targetsStacks)"
    by (auto simp: list_all_iff)
  then consider stack where "activeStack = Some stack"
      "a = Fire (Paused \<lparr>Reason = ''other'', CallFrames = sendFrames stack\<rparr>)"
    | target stack where "(target, stack) \<in> set targetsStacks"
      "a \<in> set (FirePaused target stack)"
    by (auto simp: firePauses_def split: option.splits)
  then show ?thesis
  proof cases
    case 1
    from 1(2) assms(2) have "CallFrames e = sendFrames stack" by auto
    with act [OF 1(1)] show ?thesis by blast
  next
    case 2
    from 2(2) assms(2) have "CallFrames e = sendFrames stack"
      by (auto simp: FirePaused_def)
    with oth [OF 2(1)] show ?thesis by blast
  qed
qed

text \<open>
  Claim C1 (line-number round trip). For a command that passes the parameter checks, the
  calls that \<^verbatim>\<open>setBreakpointAndRespond\<close> makes to the debugger client are the one call of
  \<^verbatim>\<open>CreateBreakpointAtLine\<close> with the command's line number plus 1, or none when the
  fingerprint is already recorded. Every Paused event of a pause snapshot, on the default
  agent or on a target, carries the frames \<open>sendFrames stack\<close> of a stack that the client
  returned, and \<^verbatim>\<open>FirePaused\<close> does so for the stack it is given; the frame at index \<open>i\<close>
  has the line number of the stack's frame \<open>i\<close> minus 1. The sum and the difference are
  those of Go's 64-bit integers, which are the integer sum and difference except at the
  ends of the range.
\<close>

theorem line_number_round_trip:
  "(accepted command url \<longrightarrow>
      calls_of (snd (snd (setBreakpointAndRespond c command p))) =
        (if breakpointKey url (cmd_LineNumber command) \<in> breakpoints p then []
         else [CreateBreakpointAtLine url (cmd_LineNumber command + 1)
                 (breakpointKey url (cmd_LineNumber command))]))
   \<and> (sint (cmd_LineNumber command) < 2 ^ 63 - 1 \<longrightarrow>
        sint (cmd_LineNumber command + 1) = sint (cmd_LineNumber command) + 1)
   \<and> (\<forall>a\<in>set (snd (snd (sendPauseState c p))). \<forall>e. paused_event a = Some e \<longrightarrow>
        (\<exists>routineID stack.
           Stacktrace_result c routineID 50 stackConfig = Inr stack
           \<and> CallFrames e = sendFrames stack))
   \<and> FirePaused t stack =
       [Fire (PausedOnTarget (fmt_d (target_ID t))
          \<lparr>Reason = ''other'', CallFrames = sendFrames stack\<rparr>)]
   \<and> length (sendFrames stack) = length stack
   \<and> (\<forall>i<length stack.
        LineNumber (Location (sendFrames stack ! i)) = Line (frame_Location (stack ! i)) - 1
        \<and> (- (2 ^ 63) < sint (Line (frame_Location (stack ! i))) \<longrightarrow>
             sint (LineNumber (Location (sendFrames stack ! i)))
               = sint (Line (frame_Location (stack ! i))) - 1))"
proof (intro conjI impI allI ballI)
  assume "accepted command url"
  then show "calls_of (snd (snd (setBreakpointAndRespond c command p))) =
        (if breakpointKey url (cmd_LineNumber command) \<in> breakpoints p then []
         else [CreateBreakpointAtLine url (cmd_LineNumber command + 1)
                 (breakpointKey url (cmd_LineNumber command))])"
    by (simp add: setBreakpoint_accepted Let_def split: option.split)
next
  assume "sint (cmd_LineNumber command) < 2 ^ 63 - 1"
  then show "sint (cmd_LineNumber command + 1) = sint (cmd_LineNumber command) + 1"
    by (rule sint_plus_one)
next
  fix a e
  assume "a \<in> set (snd (snd (sendPauseState c p)))" "paused_event a = Some e"
  then show "\<exists>routineID stack.
           Stacktrace_result c routineID 50 stackConfig = Inr stack
           \<and> CallFrames e = sendFrames stack"
    by (rule paused_frames_from_stacks)
next
  show "FirePaused t stack =
       [Fire (PausedOnTarget (fmt_d (target_ID t))
          \<lparr>Reason = ''other'', CallFrames = sendFrames stack\<rparr>)]"
    by (simp add: FirePaused_def)
next
  show "length (sendFrames stack) = length stack"
    by simp
next
  fix i assume i: "i < length stack"
  then show "LineNumber (Location (sendFrames stack ! i)) = Line (frame_Location (stack ! i)) - 1"
    by (simp add: sendFrames_nth sendFrame_def)
  assume "- (2 ^ 63) < sint (Line (frame_Location (stack ! i)))"
  with i show "sint (LineNumber (Location (sendFrames stack ! i)))
               = sint (Line (frame_Location (stack ! i))) - 1"
    by (simp add: sendFrames_nth sendFrame_def sint_minus_one)
qed

theorem line_number_round_trip_witness:
  "accepted scenario_command ''/a/b.src''
   \<and> calls_of (snd (snd (setBreakpointAndRespond two_routine_client scenario_command NewProxy)))
       = [CreateBreakpointAtLine ''/a/b.src'' 11 (breakpointKey ''/a/b.src'' 10)]
   \<and> sint (10 + 1 :: i64) = 10 + 1
   \<and> Fire (Paused \<lparr>Reason = ''other'', CallFrames = sendFrames scenario_stack\<rparr>)
       \<in> set (snd (snd (sendPauseState two_routine_client NewProxy)))
   \<and> (\<exists>routineID stack.
         Stacktrace_result two_routine_client routineID 50 stackConfig = Inr stack
         \<and> sendFrames scenario_stack = sendFrames stack)
   \<and> LineNumber (Location (sendFrames scenario_stack ! 0)) = 11 - 1
   \<and> sint (LineNumber (Location (sendFrames scenario_stack ! 0))) = 11 - 1"
proof -
  note th = line_number_round_trip
    [of scenario_command "''/a/b.src''" two_routine_client NewProxy "\<lparr>target_ID = 8\<rparr>"
       scenario_stack]
  have fresh: "breakpointKey ''/a/b.src'' 10 \<notin> breakpoints NewProxy"
    by (simp add: NewProxy_def)
  have c1: "calls_of (snd (snd (setBreakpointAndRespond two_routine_client scenario_command
                                  NewProxy)))
       = [CreateBreakpointAtLine ''/a/b.src'' 11 (breakpointKey ''/a/b.src'' 10)]"
    using th [THEN conjunct1] accepted_scenario fresh
    by (simp add: line_scenario)
  have c2: "sint (10 + 1 :: i64) = 10 + 1"
    using th [THEN conjunct2, THEN conjunct1]
    by (simp add: line_scenario)
  have mem: "Fire (Paused \<lparr>Reason = ''other'', CallFrames = sendFrames scenario_stack\<rparr>)
       \<in> set (snd (snd (sendPauseState two_routine_client NewProxy)))"
    unfolding two_routine_trace by simp
  have c3: "\<exists>routineID stack.
         Stacktrace_result two_routine_client routineID 50 stackConfig = Inr stack
         \<and> sendFrames scenario_stack = sendFrames stack"
    using th [THEN conjunct2, THEN conjunct2, THEN conjunct1, rule_format, OF mem,
              of "\<lparr>Reason = ''other'', CallFrames = sendFrames scenario_stack\<rparr>"]
    by simp
  have len: "0 < length scenario_stack"
    by (simp add: scenario_stack_def)
  have line: "Line (frame_Location (scenario_stack ! 0)) = 11"
    by (simp add: scenario_stack_def)
  have c4: "LineNumber (Location (sendFrames scenario_stack ! 0)) = 11 - 1
      \<and> sint (LineNumber (Location (sendFrames scenario_stack ! 0))) = 11 - 1"
    using th [THEN conjunct2, THEN conjunct2, THEN conjunct2, THEN conjunct2, THEN conjunct2,
              rule_format, OF len]
    unfolding line by simp
  from accepted_scenario c1 c2 mem c3 c4 show ?thesis
    by blast
qed

end
